theory Spec2Isabelle
  imports Complex_Main "HOL-Library.Multiset" "HOL-Library.Log_Nat"
    "HOL-Library.Product_Lexorder" "HOL-Library.Char_ord" "HOL-Library.List_Lexorder"
begin

section \<open>Python values used by the data processor\<close>

text \<open>
  The processor of \<^verbatim>\<open>backend/data_processor.py\<close> receives a list of dictionaries whose
  values are not typed. The values considered here are the scalars a telemetry record
  holds: \<^verbatim>\<open>None\<close>, booleans, unbounded integers, floats and strings.

  A Python float is a binary64 value: \<open>Fin r\<close> is the finite double whose exact value is
  the rational \<open>r\<close>, and there are the two infinities and NaN. Every arithmetic operation
  rounds its exact result to the nearest double, ties to the even significand. The two
  zeros are not told apart.
\<close>

datatype pyfloat = Fin rat | PInf | NInf | NaN

datatype pyval = PNone | PBool bool | PInt int | PFloat pyfloat | PStr string

datatype error = ValueError | KeyError | TypeError | OverflowError | ZeroDivisionError

type_synonym raw_record = "string \<rightharpoonup> pyval"

subsection \<open>Rounding\<close>

text \<open>
  Rounding to the nearest integer, ties to the even one; and rounding of a rational to
  binary64. A double is a multiple of \<open>2^s / 2^1074\<close> with a significand of at most 53
  bits. A magnitude is scaled by \<open>2^1074\<close>, the shift \<open>s\<close> is the number of bits by
  which the integer part of the scaled value exceeds 53 bits (none for the subnormal
  numbers), and the significand is the scaled value over \<open>2^s\<close>, rounded. A result
  of magnitude \<open>2^1024\<close> or more is an infinity.
\<close>

definition round_half_even :: "rat \<Rightarrow> int" where
  "round_half_even x =
     (let f = \<lfloor>x\<rfloor>; d = x - of_int f
      in if d < 1 / 2 then f
         else if 1 / 2 < d then f + 1
         else if even f then f else f + 1)"

definition significand_shift :: "rat \<Rightarrow> nat" where
  "significand_shift y = nat (bitlen \<lfloor>y\<rfloor> - 53)"

definition round_scaled :: "rat \<Rightarrow> rat" where
  "round_scaled y =
     (let s = significand_shift y in of_int (round_half_even (y / 2 ^ s)) * 2 ^ s)"

definition round_magnitude :: "rat \<Rightarrow> rat" where
  "round_magnitude x = round_scaled (x * 2 ^ 1074) / 2 ^ 1074"

definition round_to_double :: "rat \<Rightarrow> rat" where
  "round_to_double x = (if x < 0 then - round_magnitude (- x) else round_magnitude x)"

definition double_round :: "rat \<Rightarrow> pyfloat" where
  "double_round x =
     (let v = round_to_double x
      in if 2 ^ 1024 \<le> v then PInf else if v \<le> - (2 ^ 1024) then NInf else Fin v)"

definition is_double :: "rat \<Rightarrow> bool" where
  "is_double x = (double_round x = Fin x)"

subsection \<open>Float comparison and arithmetic\<close>

text \<open>\<^verbatim>\<open>a <= b\<close> and \<^verbatim>\<open>a < b\<close> on floats: every comparison with NaN is false.\<close>

fun fle :: "pyfloat \<Rightarrow> pyfloat \<Rightarrow> bool" where
  "fle NaN _ = False"
| "fle _ NaN = False"
| "fle (Fin a) (Fin b) = (a \<le> b)"
| "fle NInf _ = True"
| "fle _ PInf = True"
| "fle _ _ = False"

fun flt :: "pyfloat \<Rightarrow> pyfloat \<Rightarrow> bool" where
  "flt NaN _ = False"
| "flt _ NaN = False"
| "flt (Fin a) (Fin b) = (a < b)"
| "flt PInf _ = False"
| "flt _ NInf = False"
| "flt _ _ = True"

text \<open>\<^verbatim>\<open>a >= b\<close> is \<^verbatim>\<open>b <= a\<close>.\<close>

definition fge :: "pyfloat \<Rightarrow> pyfloat \<Rightarrow> bool" where
  "fge a b = fle b a"

fun fsub :: "pyfloat \<Rightarrow> pyfloat \<Rightarrow> pyfloat" where
  "fsub NaN _ = NaN"
| "fsub _ NaN = NaN"
| "fsub (Fin a) (Fin b) = double_round (a - b)"
| "fsub PInf PInf = NaN"
| "fsub NInf NInf = NaN"
| "fsub PInf _ = PInf"
| "fsub NInf _ = NInf"
| "fsub _ PInf = NInf"
| "fsub _ NInf = PInf"

text \<open>
  Float division raises \<^verbatim>\<open>ZeroDivisionError\<close> on a zero divisor, whatever the dividend;
  \<open>fquot\<close> is the quotient by any other divisor.
\<close>

fun fquot :: "pyfloat \<Rightarrow> pyfloat \<Rightarrow> pyfloat" where
  "fquot (Fin x) (Fin b) = double_round (x / b)"
| "fquot NaN _ = NaN"
| "fquot _ NaN = NaN"
| "fquot PInf (Fin b) = (if 0 < b then PInf else NInf)"
| "fquot NInf (Fin b) = (if 0 < b then NInf else PInf)"
| "fquot (Fin x) _ = Fin 0"
| "fquot _ _ = NaN"

definition fdiv :: "pyfloat \<Rightarrow> pyfloat \<Rightarrow> error + pyfloat" where
  "fdiv a b = (if b = Fin 0 then Inl ZeroDivisionError else Inr (fquot a b))"

text \<open>
  \<^verbatim>\<open>round(x, ndigits)\<close> on a float: the exact value of \<open>x\<close> is rounded to the nearest
  decimal with \<open>ndigits\<close> digits after the point, ties to the even digit, and that
  decimal to the nearest double; NaN and the infinities round to themselves.
\<close>

fun py_round :: "pyfloat \<Rightarrow> nat \<Rightarrow> pyfloat" where
  "py_round (Fin r) n = double_round (of_int (round_half_even (r * 10 ^ n)) / 10 ^ n)"
| "py_round x n = x"

text \<open>\<^verbatim>\<open>int(x)\<close> on a finite float truncates towards zero.\<close>

definition py_int :: "rat \<Rightarrow> int" where
  "py_int r = (if 0 \<le> r then \<lfloor>r\<rfloor> else \<lceil>r\<rceil>)"

subsection \<open>The parts outside the repository\<close>

text \<open>
  Three behaviours are parameters: the float grammar by which \<^verbatim>\<open>float()\<close> parses a
  string (\<open>None\<close> where the string is rejected with \<^verbatim>\<open>ValueError\<close>); the spline that
  \<^verbatim>\<open>scipy.interpolate.interp1d(x, y, kind='cubic', bounds_error=False,
  fill_value='extrapolate')\<close> fits to four or more entries, which either raises or
  yields the interpolant, a function evaluated at each target; and the arrangement in
  which \<^verbatim>\<open>list.sort\<close> leaves keys that \<^verbatim>\<open><\<close> does not order, given as positions of
  the input.
\<close>

record env =
  float_of_str :: "string \<Rightarrow> pyfloat option"
  cubic_spline :: "pyval list \<Rightarrow> pyfloat list \<Rightarrow> error + (int \<Rightarrow> pyfloat)"
  sort_unordered :: "pyval list \<Rightarrow> nat list"

subsection \<open>The builtin \<^verbatim>\<open>float()\<close>\<close>

text \<open>
  An integer converts to the nearest double; where that is an infinity (a magnitude of
  \<open>2^1024 - 2^970\<close> or more) the conversion raises \<^verbatim>\<open>OverflowError\<close>. \<^verbatim>\<open>None\<close>
  raises \<^verbatim>\<open>TypeError\<close>.
\<close>

fun py_float :: "env \<Rightarrow> pyval \<Rightarrow> error + pyfloat" where
  "py_float E (PFloat f) = Inr f"
| "py_float E (PInt i) =
     (case double_round (of_int i) of Fin r \<Rightarrow> Inr (Fin r) | _ \<Rightarrow> Inl OverflowError)"
| "py_float E (PBool b) = Inr (Fin (if b then 1 else 0))"
| "py_float E (PStr s) =
     (case float_of_str E s of None \<Rightarrow> Inl ValueError | Some f \<Rightarrow> Inr f)"
| "py_float E PNone = Inl TypeError"

subsection \<open>Ordering of values and \<^verbatim>\<open>list.sort\<close>\<close>

text \<open>
  \<^verbatim>\<open>a < b\<close> on values: numbers (booleans, integers, floats) compare by value, strings
  by code point, anything else raises \<^verbatim>\<open>TypeError\<close>.
\<close>

fun num_of :: "pyval \<Rightarrow> pyfloat option" where
  "num_of (PBool b) = Some (Fin (if b then 1 else 0))"
| "num_of (PInt i) = Some (Fin (of_int i))"
| "num_of (PFloat f) = Some f"
| "num_of _ = None"

fun str_lt :: "string \<Rightarrow> string \<Rightarrow> bool" where
  "str_lt [] [] = False"
| "str_lt [] (y # ys) = True"
| "str_lt (x # xs) [] = False"
| "str_lt (x # xs) (y # ys) =
     (if x = y then str_lt xs ys else (of_char x :: nat) < of_char y)"

definition py_lt :: "pyval \<Rightarrow> pyval \<Rightarrow> error + bool" where
  "py_lt a b =
     (case (num_of a, num_of b) of
        (Some x, Some y) \<Rightarrow> Inr (flt x y)
      | _ \<Rightarrow> (case (a, b) of
                (PStr s, PStr t) \<Rightarrow> Inr (str_lt s t)
              | _ \<Rightarrow> Inl TypeError))"

text \<open>
  \<^verbatim>\<open>xs.sort(key=k)\<close> is stable and compares keys with \<^verbatim>\<open><\<close> only; an exception of a
  comparison leaves the sort. Two or more keys that are not all numbers or all strings
  make a comparison raise. Keys that \<^verbatim>\<open><\<close> orders totally are arranged as a stable
  insertion sort arranges them, which is the one stable sorted arrangement. Numbers with
  a NaN among them raise nothing and are not ordered: their arrangement depends on the
  sorting algorithm and is the parameter \<open>sort_unordered\<close>, applied as a permutation of
  the input.
\<close>

fun py_insort :: "('a \<Rightarrow> pyval) \<Rightarrow> 'a \<Rightarrow> 'a list \<Rightarrow> error + 'a list" where
  "py_insort k x [] = Inr [x]"
| "py_insort k x (y # ys) =
     (case py_lt (k y) (k x) of
        Inl e \<Rightarrow> Inl e
      | Inr True \<Rightarrow> (case py_insort k x ys of Inl e \<Rightarrow> Inl e | Inr zs \<Rightarrow> Inr (y # zs))
      | Inr False \<Rightarrow> Inr (x # y # ys))"

fun insertion_sort :: "('a \<Rightarrow> pyval) \<Rightarrow> 'a list \<Rightarrow> error + 'a list" where
  "insertion_sort k [] = Inr []"
| "insertion_sort k (x # xs) =
     (case insertion_sort k xs of Inl e \<Rightarrow> Inl e | Inr ys \<Rightarrow> py_insort k x ys)"

definition unordered :: "pyval list \<Rightarrow> bool" where
  "unordered ks =
     (2 \<le> length ks \<and> list_all (\<lambda>k. num_of k \<noteq> None) ks
      \<and> list_ex (\<lambda>k. num_of k = Some NaN) ks)"

definition permute :: "nat list \<Rightarrow> 'a list \<Rightarrow> 'a list" where
  "permute p xs = (if mset p = mset [0..<length xs] then map (nth xs) p else xs)"

definition py_sort :: "env \<Rightarrow> ('a \<Rightarrow> pyval) \<Rightarrow> 'a list \<Rightarrow> error + 'a list" where
  "py_sort E k xs =
     (if unordered (map k xs) then Inr (permute (sort_unordered E (map k xs)) xs)
      else insertion_sort k xs)"

text \<open>\<^verbatim>\<open>numpy.clip(x, lo, hi)\<close> on one element: NaN stays NaN.\<close>

definition np_clip :: "pyfloat \<Rightarrow> pyfloat \<Rightarrow> pyfloat \<Rightarrow> pyfloat" where
  "np_clip x lo hi = (if x = NaN then NaN else if flt x lo then lo else if flt hi x then hi else x)"

text \<open>
  \<^verbatim>\<open>interp1d\<close> with \<^verbatim>\<open>kind='cubic'\<close> rejects fewer than four entries with
  \<^verbatim>\<open>ValueError\<close> and otherwise fits the spline.
\<close>

definition interp1d :: "env \<Rightarrow> pyval list \<Rightarrow> pyfloat list \<Rightarrow> error + (int \<Rightarrow> pyfloat)" where
  "interp1d E x y = (if length x < 4 then Inl ValueError else cubic_spline E x y)"

section \<open>The clock\<close>

text \<open>
  \<^verbatim>\<open>datetime.now()\<close> is read many times during one call. The clock is the sequence of
  its readings, and every function that reads it takes the number of readings so far and
  returns the new number. Of a reading only what the code observes is kept: its
  \<^verbatim>\<open>timestamp()\<close>, its \<^verbatim>\<open>isoformat()\<close>, the \<^verbatim>\<open>timestamp()\<close> of the same day at
  a full hour (\<^verbatim>\<open>replace(hour=0, minute=0, second=0, microsecond=0).replace(hour=h)\<close>),
  and the \<^verbatim>\<open>strftime("%Y-%m-%d")\<close> of the reading minus a number of days.
\<close>

record datetime =
  dt_timestamp :: rat
  dt_isoformat :: string
  dt_hour_timestamp :: "nat \<Rightarrow> rat"
  dt_minus_days_ymd :: "nat \<Rightarrow> string"

type_synonym clock = "nat \<Rightarrow> datetime"

section \<open>The data processor\<close>

record processed_point =
  pp_timestamp :: pyval
  pp_time :: pyval
  pp_temperature :: pyfloat
  pp_fault_probability :: pyfloat
  pp_original_data :: raw_record

record series_point =
  sp_time :: string
  sp_probability :: pyfloat
  sp_timestamp :: int

record latest_data =
  ld_temperature :: pyfloat
  ld_faultProbability :: pyfloat
  ld_timestamp :: pyval

record report =
  timeSeries :: "series_point list"
  latestData :: latest_data
  availableWaterJets :: "string list"
  availableDates :: "string list"

definition min_temp :: pyfloat where
  "min_temp = Fin 25"

definition max_temp :: pyfloat where
  "max_temp = Fin (99 / 2)"

definition time_labels :: "string list" where
  "time_labels = [''02am'', ''04am'', ''06am'', ''08am'', ''10am'',
                  ''12pm'', ''02pm'', ''04pm'', ''06pm'', ''08pm'', ''10pm'']"

subsection \<open>\<^verbatim>\<open>temperature_to_percentage\<close>\<close>

definition temperature_to_percentage :: "pyfloat \<Rightarrow> error + pyfloat" where
  "temperature_to_percentage temperature =
     (if fle temperature min_temp then Inr (Fin 0)
      else if fge temperature max_temp then Inr (Fin 1)
      else (case fdiv (fsub temperature min_temp) (fsub max_temp min_temp) of
              Inl e \<Rightarrow> Inl e
            | Inr percentage \<Rightarrow> Inr (py_round percentage 3)))"

subsection \<open>\<^verbatim>\<open>process_raw_data\<close>\<close>

text \<open>The body of the \<^verbatim>\<open>try\<close> for one record: the point to append, if any.\<close>

definition extract_temperature :: "env \<Rightarrow> raw_record \<Rightarrow> error + pyfloat option" where
  "extract_temperature E data_point =
     (case data_point ''temperature'' of
        Some v \<Rightarrow> map_sum id Some (py_float E v)
      | None \<Rightarrow>
          (case data_point ''value'' of
             Some v \<Rightarrow>
               (if data_point ''field'' = Some (PStr ''temperature'')
                then map_sum id Some (py_float E v)
                else map_sum id Some (py_float E v))
           | None \<Rightarrow> Inr None))"

definition get_default :: "raw_record \<Rightarrow> string \<Rightarrow> pyval \<Rightarrow> pyval" where
  "get_default d key dflt = (case d key of None \<Rightarrow> dflt | Some v \<Rightarrow> v)"

definition process_point :: "env \<Rightarrow> raw_record \<Rightarrow> error + processed_point option" where
  "process_point E data_point =
     (case extract_temperature E data_point of
        Inl e \<Rightarrow> Inl e
      | Inr None \<Rightarrow> Inr None
      | Inr (Some temperature) \<Rightarrow>
          (case temperature_to_percentage temperature of
             Inl e \<Rightarrow> Inl e
           | Inr percentage \<Rightarrow>
               Inr (Some \<lparr>pp_timestamp = get_default data_point ''timestamp'' (PInt 0),
                          pp_time = get_default data_point ''time'' (PStr ''''),
                          pp_temperature = temperature,
                          pp_fault_probability = percentage,
                          pp_original_data = data_point\<rparr>)))"

text \<open>\<^verbatim>\<open>except (ValueError, KeyError, TypeError)\<close>: the record is skipped.\<close>

definition caught :: "error \<Rightarrow> bool" where
  "caught e = (e = ValueError \<or> e = KeyError \<or> e = TypeError)"

fun process_loop :: "env \<Rightarrow> raw_record list \<Rightarrow> processed_point list \<Rightarrow> error + processed_point list" where
  "process_loop E [] processed_data = Inr processed_data"
| "process_loop E (data_point # rest) processed_data =
     (case process_point E data_point of
        Inl e \<Rightarrow> (if caught e then process_loop E rest processed_data else Inl e)
      | Inr None \<Rightarrow> process_loop E rest processed_data
      | Inr (Some p) \<Rightarrow> process_loop E rest (processed_data @ [p]))"

definition process_raw_data :: "env \<Rightarrow> raw_record list \<Rightarrow> error + processed_point list" where
  "process_raw_data E raw_data =
     (case process_loop E raw_data [] of
        Inl e \<Rightarrow> Inl e
      | Inr processed_data \<Rightarrow> py_sort E pp_timestamp processed_data)"

subsection \<open>Target timestamps, recent dates and the empty report\<close>

definition target_hours :: "nat list" where
  "target_hours = [2, 4, 6, 8, 10, 12, 14, 16, 18, 20, 22]"

definition generate_target_timestamps :: "clock \<Rightarrow> nat \<Rightarrow> int list \<times> nat" where
  "generate_target_timestamps clk n =
     (let now = clk n
      in (map (\<lambda>hour. py_int (dt_hour_timestamp now hour)) target_hours, n + 1))"

definition get_recent_dates :: "clock \<Rightarrow> nat \<Rightarrow> string list \<times> nat" where
  "get_recent_dates clk n =
     (map (\<lambda>i. dt_minus_days_ymd (clk (n + i)) i) [0..<7], n + 7)"

definition get_empty_time_series :: "clock \<Rightarrow> nat \<Rightarrow> report \<times> nat" where
  "get_empty_time_series clk n =
     (let series = map (\<lambda>(i, time_label).
                          \<lparr>sp_time = time_label,
                           sp_probability = Fin 0,
                           sp_timestamp = py_int (dt_timestamp (clk (n + i)))\<rparr>)
                       (enumerate 0 time_labels);
          n1 = n + length time_labels;
          latest = \<lparr>ld_temperature = Fin 25,
                    ld_faultProbability = Fin 0,
                    ld_timestamp = PStr (dt_isoformat (clk n1))\<rparr>;
          (dates, n2) = get_recent_dates clk (n1 + 1)
      in (\<lparr>timeSeries = series,
           latestData = latest,
           availableWaterJets = [''WaterJet_01''],
           availableDates = dates\<rparr>, n2))"

subsection \<open>\<^verbatim>\<open>generate_time_series_data\<close>\<close>

text \<open>
  The \<^verbatim>\<open>if len(timestamps) >= 2 ... else ...\<close> block: the interpolated and clamped
  values at the targets, or the constant fill.
\<close>

definition interpolated_probabilities ::
    "env \<Rightarrow> int list \<Rightarrow> pyval list \<Rightarrow> pyfloat list \<Rightarrow> error + pyfloat list" where
  "interpolated_probabilities E target_times timestamps probabilities =
     (if 2 \<le> length timestamps
      then (case interp1d E timestamps probabilities of
              Inl e \<Rightarrow> Inl e
            | Inr interp_func \<Rightarrow>
                Inr (map (\<lambda>t. np_clip (interp_func t) (Fin 0) (Fin 1)) target_times))
      else Inr (replicate (length target_times)
                  (case probabilities of [] \<Rightarrow> Fin (1 / 2) | p # _ \<Rightarrow> p)))"

text \<open>
  The body of the \<^verbatim>\<open>try\<close>: the report and the clock after it, or the exception together
  with the clock at the moment it was raised.
\<close>

definition series_body :: "env \<Rightarrow> clock \<Rightarrow> nat \<Rightarrow> processed_point list \<Rightarrow> (error \<times> nat) + (report \<times> nat)" where
  "series_body E clk n processed_data =
     (let timestamps = map pp_timestamp processed_data;
          probabilities = map pp_fault_probability processed_data;
          (target_times, n1) = generate_target_timestamps clk n
      in case interpolated_probabilities E target_times timestamps probabilities of
           Inl e \<Rightarrow> Inl (e, n1)
         | Inr interpolated \<Rightarrow>
             (let time_series =
                    map (\<lambda>(i, (time_label, probability)).
                           \<lparr>sp_time = time_label,
                            sp_probability = py_round probability 3,
                            sp_timestamp = target_times ! i\<rparr>)
                        (enumerate 0 (zip time_labels interpolated));
                  (latest, n2) =
                    (if processed_data \<noteq> []
                     then (let latest_data = last processed_data
                           in (\<lparr>ld_temperature = pp_temperature latest_data,
                                ld_faultProbability = pp_fault_probability latest_data,
                                ld_timestamp = pp_time latest_data\<rparr>, n1))
                     else (\<lparr>ld_temperature = Fin 25,
                            ld_faultProbability = Fin 0,
                            ld_timestamp = PStr (dt_isoformat (clk n1))\<rparr>, n1 + 1));
                  (dates, n3) = get_recent_dates clk n2
              in Inr (\<lparr>timeSeries = time_series,
                       latestData = latest,
                       availableWaterJets = [''WaterJet_01'', ''WaterJet_02'', ''WaterJet_03''],
                       availableDates = dates\<rparr>, n3)))"

definition generate_time_series_data :: "env \<Rightarrow> clock \<Rightarrow> nat \<Rightarrow> processed_point list \<Rightarrow> report \<times> nat" where
  "generate_time_series_data E clk n processed_data =
     (if processed_data = [] then get_empty_time_series clk n
      else (case series_body E clk n processed_data of
              Inl (e, n1) \<Rightarrow> get_empty_time_series clk n1
            | Inr result \<Rightarrow> result))"

subsection \<open>\<^verbatim>\<open>process_and_export_json\<close>\<close>

text \<open>
  The report that \<^verbatim>\<open>json.dumps\<close> serialises; on the values above the serialisation
  itself does not raise, and its text is not modelled.
\<close>

definition process_and_export_json :: "env \<Rightarrow> clock \<Rightarrow> nat \<Rightarrow> raw_record list \<Rightarrow> error + (report \<times> nat)" where
  "process_and_export_json E clk n raw_data =
     (case process_raw_data E raw_data of
        Inl e \<Rightarrow> Inl e
      | Inr processed_data \<Rightarrow> Inr (generate_time_series_data E clk n processed_data))"

section \<open>Predicates used in the statements\<close>

text \<open>A probability lies in \<open>[0, 1]\<close>; NaN does not.\<close>

definition in_unit :: "pyfloat \<Rightarrow> bool" where
  "in_unit p = (fle (Fin 0) p \<and> fle p (Fin 1))"

text \<open>
  Two keys are equal for the sort when neither is less than the other. The keys that
  \<^verbatim>\<open><\<close> orders totally are the numbers other than NaN, ordered by their value with
  the infinities at the ends, and the strings, ordered by their code points.
\<close>

definition same_key :: "pyval \<Rightarrow> pyval \<Rightarrow> bool" where
  "same_key a b = (py_lt a b = Inr False \<and> py_lt b a = Inr False)"

definition num_key :: "pyval \<Rightarrow> bool" where
  "num_key v = (case num_of v of Some f \<Rightarrow> f \<noteq> NaN | None \<Rightarrow> False)"

definition str_key :: "pyval \<Rightarrow> bool" where
  "str_key v = (case v of PStr s \<Rightarrow> True | _ \<Rightarrow> False)"

definition num_rank :: "pyval \<Rightarrow> int \<times> rat" where
  "num_rank v = (case num_of v of Some (Fin r) \<Rightarrow> (0, r) | Some PInf \<Rightarrow> (1, 0)
                 | Some NInf \<Rightarrow> (- 1, 0) | _ \<Rightarrow> (0, 0))"

definition str_rank :: "pyval \<Rightarrow> string" where
  "str_rank v = (case v of PStr s \<Rightarrow> s | _ \<Rightarrow> [])"

text \<open>
  What the loop of \<open>process_raw_data\<close> does with one record: the point it appends, if
  any, and whether an exception leaves the \<^verbatim>\<open>except\<close> clause uncaught.
\<close>

definition point_of :: "env \<Rightarrow> raw_record \<Rightarrow> processed_point option" where
  "point_of E dp = (case process_point E dp of Inr (Some p) \<Rightarrow> Some p | _ \<Rightarrow> None)"

definition escapes :: "env \<Rightarrow> raw_record \<Rightarrow> bool" where
  "escapes E dp = (case process_point E dp of Inl e \<Rightarrow> \<not> caught e | Inr _ \<Rightarrow> False)"

text \<open>The \<open>latestData\<close> of the normal path, and the condition under which the fit raises.\<close>

definition normal_latest :: "processed_point list \<Rightarrow> latest_data" where
  "normal_latest ps = \<lparr>ld_temperature = pp_temperature (last ps),
                        ld_faultProbability = pp_fault_probability (last ps),
                        ld_timestamp = pp_time (last ps)\<rparr>"

definition fit_raises :: "env \<Rightarrow> processed_point list \<Rightarrow> bool" where
  "fit_raises E ps =
     (2 \<le> length ps \<and> isl (interp1d E (map pp_timestamp ps) (map pp_fault_probability ps)))"

section \<open>Concrete inputs\<close>

text \<open>
  The library behaviour of the examples. The parser is applied to the one string
  \<^verbatim>\<open>not-a-number\<close>, which \<^verbatim>\<open>float()\<close> rejects. The spline is fitted to four points
  on the line \<open>p = t / 1000\<close> only, where the cubic through them is that line. A sort of
  numbers with a NaN among them is applied to \<^verbatim>\<open>[2.0, nan, 1.0]\<close> only, which
  \<^verbatim>\<open>list.sort\<close> leaves as it is: every comparison with NaN is false, so the list
  looks sorted to it.
\<close>

definition E_lin :: env where
  "E_lin = \<lparr>float_of_str = (\<lambda>s. None),
            cubic_spline = (\<lambda>xs ys. Inr (\<lambda>t. double_round (of_int t / 1000))),
            sort_unordered = (\<lambda>ks. [0..<length ks])\<rparr>"

text \<open>
  Readings of a clock on 2023-12-21 (UTC), \<open>s\<close> seconds after 02:30:00. The first clock
  advances by a microsecond per reading; the second does so too and starts five
  microseconds before the next full second; the third reads the same instants as the
  first in a zone eight hours ahead of UTC. The fourth is read at noon of 1970-01-01 in a
  zone twelve hours ahead of UTC, where that noon is the epoch.
\<close>

definition reading :: "rat \<Rightarrow> datetime" where
  "reading s =
     \<lparr>dt_timestamp = 1703125800 + s,
      dt_isoformat = ''2023-12-21T02:30:00'',
      dt_hour_timestamp = (\<lambda>h. 1703116800 + 3600 * of_nat h),
      dt_minus_days_ymd = (\<lambda>i. if i < 7
         then [''2023-12-21'', ''2023-12-20'', ''2023-12-19'', ''2023-12-18'',
               ''2023-12-17'', ''2023-12-16'', ''2023-12-15''] ! i
         else [])\<rparr>"

definition clk0 :: clock where
  "clk0 k = reading (of_nat k / 1000000)"

definition clk_tick :: clock where
  "clk_tick k = reading ((999995 + of_nat k) / 1000000)"

definition clk_east :: clock where
  "clk_east k =
     \<lparr>dt_timestamp = 1703125800 + of_nat k / 1000000,
      dt_isoformat = ''2023-12-21T10:30:00'',
      dt_hour_timestamp = (\<lambda>h. 1703088000 + 3600 * of_nat h),
      dt_minus_days_ymd = (\<lambda>i. if i < 7
         then [''2023-12-21'', ''2023-12-20'', ''2023-12-19'', ''2023-12-18'',
               ''2023-12-17'', ''2023-12-16'', ''2023-12-15''] ! i
         else [])\<rparr>"

definition clk_1970 :: clock where
  "clk_1970 k =
     \<lparr>dt_timestamp = of_nat k / 1000000,
      dt_isoformat = ''1970-01-01T12:00:00'',
      dt_hour_timestamp = (\<lambda>h. 3600 * of_nat h - 43200),
      dt_minus_days_ymd = (\<lambda>i. if i < 7
         then [''1970-01-01'', ''1969-12-31'', ''1969-12-30'', ''1969-12-29'',
               ''1969-12-28'', ''1969-12-27'', ''1969-12-26''] ! i
         else [])\<rparr>"

text \<open>
  Raw records and the points the sanitiser makes of them. The temperature of \<open>rec_d\<close> is
  the double \<^verbatim>\<open>34.8\<close> and the probability of \<open>pt_d\<close> the double \<^verbatim>\<open>0.4\<close>.
\<close>

definition rec_a :: raw_record where
  "rec_a = [''timestamp'' \<mapsto> PInt 5, ''value'' \<mapsto> PFloat (Fin 50),
            ''field'' \<mapsto> PStr ''temperature'']"

definition rec_b :: raw_record where
  "rec_b = [''temperature'' \<mapsto> PFloat (Fin 20)]"

definition rec_c :: raw_record where
  "rec_c = [''timestamp'' \<mapsto> PInt 5, ''time'' \<mapsto> PStr ''2023-12-21T02:30:00Z'',
            ''temperature'' \<mapsto> PFloat (Fin (149 / 4))]"

definition rec_d :: raw_record where
  "rec_d = [''timestamp'' \<mapsto> PInt 1703125800,
            ''temperature'' \<mapsto> PFloat (Fin (2448832297382707 / 70368744177664))]"

definition rec_lo :: raw_record where
  "rec_lo = [''timestamp'' \<mapsto> PInt 0, ''temperature'' \<mapsto> PFloat (Fin 25)]"

definition rec_q :: raw_record where
  "rec_q = [''timestamp'' \<mapsto> PInt 250, ''temperature'' \<mapsto> PFloat (Fin (249 / 8))]"

definition rec_m :: raw_record where
  "rec_m = [''timestamp'' \<mapsto> PInt 500, ''temperature'' \<mapsto> PFloat (Fin (149 / 4))]"

definition rec_hi :: raw_record where
  "rec_hi = [''timestamp'' \<mapsto> PInt 1000, ''time'' \<mapsto> PStr ''1970-01-01T00:16:40Z'',
             ''temperature'' \<mapsto> PFloat (Fin (99 / 2))]"

definition rec_iso :: raw_record where
  "rec_iso = [''value'' \<mapsto> PFloat (Fin 30), ''timestamp'' \<mapsto> PStr ''2023-12-21T02:30:00Z'']"

definition rec_plain :: raw_record where
  "rec_plain = [''value'' \<mapsto> PFloat (Fin 31)]"

definition rec_big :: raw_record where
  "rec_big = [''temperature'' \<mapsto> PInt (2 ^ 1024)]"

definition rec_nan :: raw_record where
  "rec_nan = [''temperature'' \<mapsto> PFloat NaN]"

definition rec_text :: raw_record where
  "rec_text = [''value'' \<mapsto> PStr ''not-a-number'']"

definition rec_at :: "pyfloat \<Rightarrow> raw_record" where
  "rec_at ts = [''timestamp'' \<mapsto> PFloat ts, ''temperature'' \<mapsto> PFloat (Fin 20)]"

definition pt_a :: processed_point where
  "pt_a = \<lparr>pp_timestamp = PInt 5, pp_time = PStr [], pp_temperature = Fin 50,
           pp_fault_probability = Fin 1, pp_original_data = rec_a\<rparr>"

definition pt_b :: processed_point where
  "pt_b = \<lparr>pp_timestamp = PInt 0, pp_time = PStr [], pp_temperature = Fin 20,
           pp_fault_probability = Fin 0, pp_original_data = rec_b\<rparr>"

definition pt_c :: processed_point where
  "pt_c = \<lparr>pp_timestamp = PInt 5, pp_time = PStr ''2023-12-21T02:30:00Z'',
           pp_temperature = Fin (149 / 4), pp_fault_probability = Fin (1 / 2),
           pp_original_data = rec_c\<rparr>"

definition pt_d :: processed_point where
  "pt_d = \<lparr>pp_timestamp = PInt 1703125800, pp_time = PStr [],
           pp_temperature = Fin (2448832297382707 / 70368744177664),
           pp_fault_probability = Fin (3602879701896397 / 9007199254740992),
           pp_original_data = rec_d\<rparr>"

definition pt_lo :: processed_point where
  "pt_lo = \<lparr>pp_timestamp = PInt 0, pp_time = PStr [], pp_temperature = Fin 25,
            pp_fault_probability = Fin 0, pp_original_data = rec_lo\<rparr>"

definition pt_q :: processed_point where
  "pt_q = \<lparr>pp_timestamp = PInt 250, pp_time = PStr [], pp_temperature = Fin (249 / 8),
           pp_fault_probability = Fin (1 / 4), pp_original_data = rec_q\<rparr>"

definition pt_m :: processed_point where
  "pt_m = \<lparr>pp_timestamp = PInt 500, pp_time = PStr [], pp_temperature = Fin (149 / 4),
           pp_fault_probability = Fin (1 / 2), pp_original_data = rec_m\<rparr>"

definition pt_hi :: processed_point where
  "pt_hi = \<lparr>pp_timestamp = PInt 1000, pp_time = PStr ''1970-01-01T00:16:40Z'',
            pp_temperature = Fin (99 / 2), pp_fault_probability = Fin 1,
            pp_original_data = rec_hi\<rparr>"

definition pt_nan :: processed_point where
  "pt_nan = \<lparr>pp_timestamp = PInt 0, pp_time = PStr [], pp_temperature = NaN,
             pp_fault_probability = NaN, pp_original_data = rec_nan\<rparr>"

definition pt_at :: "pyfloat \<Rightarrow> processed_point" where
  "pt_at ts = \<lparr>pp_timestamp = PFloat ts, pp_time = PStr [], pp_temperature = Fin 20,
               pp_fault_probability = Fin 0, pp_original_data = rec_at ts\<rparr>"

section \<open>Rounding to binary64\<close>

lemma round_half_even_of_int: "round_half_even (of_int k) = k"
  by (simp add: round_half_even_def)

lemma round_half_even_numeral [simp]:
  "round_half_even 0 = 0" "round_half_even 1 = 1" "round_half_even (numeral k) = numeral k"
  using round_half_even_of_int [of 0] round_half_even_of_int [of 1]
    round_half_even_of_int [of "numeral k"] by simp_all

lemma round_half_even_power: "round_half_even (2 ^ n) = 2 ^ n"
  using round_half_even_of_int [of "2 ^ n"] by simp

lemma round_half_even_bounds: "\<lfloor>x\<rfloor> \<le> round_half_even x" "round_half_even x \<le> \<lfloor>x\<rfloor> + 1"
  by (simp_all add: round_half_even_def Let_def)

lemma round_half_even_mono:
  assumes "x \<le> y" shows "round_half_even x \<le> round_half_even y"
proof (cases "\<lfloor>x\<rfloor> = \<lfloor>y\<rfloor>")
  case True
  with assms have "x - of_int \<lfloor>x\<rfloor> \<le> y - of_int \<lfloor>y\<rfloor>" by simp
  with True show ?thesis by (auto simp: round_half_even_def Let_def)
next
  case False
  with assms have "\<lfloor>x\<rfloor> < \<lfloor>y\<rfloor>" using floor_mono[OF assms] by linarith
  then have "round_half_even x \<le> \<lfloor>y\<rfloor>" using round_half_even_bounds(2)[of x] by linarith
  then show ?thesis using round_half_even_bounds(1)[of y] by linarith
qed

lemma round_half_even_close: "\<bar>of_int (round_half_even x) - x\<bar> \<le> 1 / 2"
proof -
  have "of_int \<lfloor>x\<rfloor> \<le> x" "x < of_int \<lfloor>x\<rfloor> + 1" by linarith+
  then show ?thesis
    by (auto simp: round_half_even_def Let_def abs_le_iff)
qed

lemma round_half_even_unique:
  assumes "\<bar>x - of_int m\<bar> < 1 / 2"
  shows "round_half_even x = m"
proof -
  have "\<bar>of_int (round_half_even x) - (of_int m :: rat)\<bar> < 1"
    using round_half_even_close [of x] assms by linarith
  then have "\<bar>(of_int (round_half_even x - m) :: rat)\<bar> < 1" by simp
  then have "\<bar>round_half_even x - m\<bar> < 1"
    by (metis of_int_abs of_int_less_1_iff)
  then show ?thesis by linarith
qed

lemma bitlen_mono: "a \<le> b \<Longrightarrow> bitlen a \<le> bitlen b"
  by (simp add: bitlen_def floorlog_mono)

lemma nat_int_53: "nat (int s + 53) = s + 53" "nat (int s + 53) - Suc 0 = s + 52"
  by linarith+

lemma shift_upper:
  assumes "0 \<le> y" shows "y < 2 ^ (significand_shift y + 53)"
proof -
  have "bitlen \<lfloor>y\<rfloor> \<le> int (significand_shift y + 53)"
    by (simp add: significand_shift_def)
  then have "\<lfloor>y\<rfloor> < 2 ^ (significand_shift y + 53)"
    by (simp add: bitlen_le_iff_power nat_int_53)
  then show ?thesis by (simp add: floor_less_iff)
qed

lemma shift_lower:
  assumes "0 < significand_shift y" shows "2 ^ (significand_shift y + 52) \<le> y"
proof -
  from assms have "int (significand_shift y + 53) \<le> bitlen \<lfloor>y\<rfloor>"
    by (simp add: significand_shift_def)
  then have "2 ^ (significand_shift y + 52) \<le> \<lfloor>y\<rfloor>"
    by (simp add: bitlen_ge_iff_power nat_int_53 add.commute)
  then have "(2 ^ (significand_shift y + 52) :: rat) \<le> of_int \<lfloor>y\<rfloor>"
    by (metis of_int_le_iff of_int_numeral of_int_power)
  also have "\<dots> \<le> y" by simp
  finally show ?thesis .
qed

lemma shift_unique:
  assumes "y < 2 ^ (s + 53)" and "s = 0 \<or> 2 ^ (s + 52) \<le> y"
  shows "significand_shift y = s"
proof -
  from assms(1) have "\<lfloor>y\<rfloor> < 2 ^ (s + 53)" by (simp add: floor_less_iff)
  then have up: "bitlen \<lfloor>y\<rfloor> \<le> int (s + 53)" by (simp add: bitlen_le_iff_power nat_int_53)
  show ?thesis
  proof (cases "s = 0")
    case True
    with up show ?thesis by (simp add: significand_shift_def)
  next
    case False
    with assms(2) have "(2 ^ (s + 52) :: rat) \<le> y" by simp
    then have "(of_int (2 ^ (s + 52)) :: rat) \<le> y" by simp
    then have "2 ^ (s + 52) \<le> \<lfloor>y\<rfloor>" by (simp only: le_floor_iff)
    then have "int (s + 53) \<le> bitlen \<lfloor>y\<rfloor>" by (simp add: bitlen_ge_iff_power nat_int_53 add.commute)
    with up show ?thesis by (simp add: significand_shift_def)
  qed
qed

lemma shift_mono: "x \<le> y \<Longrightarrow> significand_shift x \<le> significand_shift y"
  unfolding significand_shift_def
  by (intro nat_mono diff_right_mono bitlen_mono floor_mono)

lemma round_scaled_nonneg: "0 \<le> y \<Longrightarrow> 0 \<le> round_scaled y"
proof -
  assume "0 \<le> y"
  then have "0 \<le> y / 2 ^ significand_shift y" by simp
  from round_half_even_mono [OF this] show ?thesis
    by (simp add: round_scaled_def Let_def)
qed

lemma round_scaled_mono:
  assumes "0 \<le> x" and "x \<le> y"
  shows "round_scaled x \<le> round_scaled y"
proof -
  let ?s = "significand_shift x" and ?t = "significand_shift y"
  have y0: "0 \<le> y" using assms by simp
  have st: "?s \<le> ?t" using assms(2) by (rule shift_mono)
  show ?thesis
  proof (cases "?s = ?t")
    case True
    have "x / 2 ^ ?t \<le> y / 2 ^ ?t" using assms(2) by (simp add: divide_right_mono)
    from round_half_even_mono [OF this] show ?thesis
      by (simp add: round_scaled_def Let_def True)
  next
    case False
    with st have lt: "?s + 1 \<le> ?t" by simp
    then have t0: "0 < ?t" by simp
    have "x / 2 ^ ?s \<le> 2 ^ 53"
      using shift_upper [OF assms(1)] by (simp add: power_add divide_le_eq)
    from round_half_even_mono [OF this]
    have "round_half_even (x / 2 ^ ?s) \<le> 2 ^ 53" by (simp add: round_half_even_power)
    then have "(of_int (round_half_even (x / 2 ^ ?s)) :: rat) \<le> 2 ^ 53"
      by (metis of_int_le_iff of_int_numeral of_int_power)
    then have a: "round_scaled x \<le> 2 ^ 53 * 2 ^ ?s"
      by (simp add: round_scaled_def Let_def)
    have "2 ^ 52 \<le> y / 2 ^ ?t"
      using shift_lower [OF t0] by (simp add: power_add le_divide_eq mult.commute)
    from round_half_even_mono [OF this]
    have "2 ^ 52 \<le> round_half_even (y / 2 ^ ?t)" by (simp add: round_half_even_power)
    then have "(2 ^ 52 :: rat) \<le> of_int (round_half_even (y / 2 ^ ?t))"
      by (metis of_int_le_iff of_int_numeral of_int_power)
    then have b: "2 ^ 52 * 2 ^ ?t \<le> round_scaled y"
      by (simp add: round_scaled_def Let_def)
    have "(2 ^ 53 * 2 ^ ?s :: rat) = 2 ^ 52 * 2 ^ (?s + 1)" by simp
    also have "\<dots> \<le> 2 ^ 52 * 2 ^ ?t"
      using lt by (intro mult_left_mono power_increasing) simp_all
    finally show ?thesis using a b by linarith
  qed
qed

lemma round_scaled_error:
  assumes "0 \<le> y"
  shows "\<bar>round_scaled y - y\<bar> \<le> 2 ^ significand_shift y / 2"
proof -
  let ?s = "significand_shift y"
  have "round_scaled y - y = (of_int (round_half_even (y / 2 ^ ?s)) - y / 2 ^ ?s) * 2 ^ ?s"
    by (simp add: round_scaled_def Let_def algebra_simps)
  then have "\<bar>round_scaled y - y\<bar> = \<bar>of_int (round_half_even (y / 2 ^ ?s)) - y / 2 ^ ?s\<bar> * 2 ^ ?s"
    by (simp add: abs_mult)
  also have "\<dots> \<le> 1 / 2 * 2 ^ ?s"
    by (intro mult_right_mono round_half_even_close) simp
  finally show ?thesis by simp
qed

lemma round_scaled_cert:
  assumes "y < 2 ^ (s + 53)" and "s = 0 \<or> 2 ^ (s + 52) \<le> y"
    and "\<bar>y / 2 ^ s - of_int m\<bar> < 1 / 2"
  shows "round_scaled y = of_int m * 2 ^ s"
  using shift_unique [OF assms(1,2)] round_half_even_unique [OF assms(3)]
  by (simp add: round_scaled_def)

lemma round_magnitude_nonneg: "0 \<le> x \<Longrightarrow> 0 \<le> round_magnitude x"
  by (simp add: round_magnitude_def round_scaled_nonneg)

lemma round_magnitude_mono: "0 \<le> x \<Longrightarrow> x \<le> y \<Longrightarrow> round_magnitude x \<le> round_magnitude y"
  unfolding round_magnitude_def
  by (intro divide_right_mono round_scaled_mono) (simp_all add: mult_right_mono)

lemma round_to_double_mono:
  assumes "x \<le> y" shows "round_to_double x \<le> round_to_double y"
proof -
  consider "0 \<le> x" | "x < 0" "y < 0" | "x < 0" "0 \<le> y" by linarith
  then show ?thesis
  proof cases
    case 1
    with assms show ?thesis by (simp add: round_to_double_def round_magnitude_mono)
  next
    case 2
    with assms round_magnitude_mono [of "- y" "- x"] show ?thesis
      by (simp add: round_to_double_def)
  next
    case 3
    with round_magnitude_nonneg [of "- x"] round_magnitude_nonneg [of y] show ?thesis
      by (simp add: round_to_double_def)
  qed
qed

lemma double_round_mono: "x \<le> y \<Longrightarrow> fle (double_round x) (double_round y)"
  using round_to_double_mono [of x y] by (auto simp: double_round_def Let_def)

lemma double_round_not_NaN [simp]: "double_round x \<noteq> NaN"
  by (simp add: double_round_def Let_def)

text \<open>A rounding is checked from its shift and significand.\<close>

lemma double_round_cert:
  assumes "0 \<le> x"
    and "x * 2 ^ 1074 < 2 ^ (s + 53)" and "s = 0 \<or> 2 ^ (s + 52) \<le> x * 2 ^ 1074"
    and "\<bar>x * 2 ^ 1074 / 2 ^ s - of_int m\<bar> < 1 / 2"
    and "of_int m * 2 ^ s / 2 ^ 1074 = v" and "v < 2 ^ 1024"
  shows "double_round x = Fin v"
proof -
  have "round_magnitude x = v"
    using round_scaled_cert [OF assms(2,3,4)] assms(5) by (simp add: round_magnitude_def)
  moreover have "0 \<le> v" using round_magnitude_nonneg [OF assms(1)] calculation by simp
  ultimately show ?thesis using assms(1,6)
    by (simp add: double_round_def round_to_double_def Let_def not_le)
qed

lemma double_round_0 [simp]: "double_round 0 = Fin 0"
  by (rule double_round_cert [where s = 0 and m = 0]) simp_all

lemma double_round_1 [simp]: "double_round 1 = Fin 1"
  by (rule double_round_cert [where s = 1022 and m = "2 ^ 52"]) simp_all

lemma double_round_49_2 [simp]: "double_round (49 / 2) = Fin (49 / 2)"
  by (rule double_round_cert [where s = 1026 and m = "49 * 2 ^ 47"]) simp_all

lemma fle_Fin_iff:
  "fle (Fin a) p \<and> fle p (Fin b) \<longleftrightarrow> (\<exists>v. p = Fin v \<and> a \<le> v \<and> v \<le> b)"
  by (cases p) auto

lemma in_unit_iff: "in_unit p \<longleftrightarrow> (\<exists>v. p = Fin v \<and> 0 \<le> v \<and> v \<le> 1)"
  unfolding in_unit_def by (rule fle_Fin_iff)

lemma double_round_between:
  assumes "is_double a" and "is_double b" and "a \<le> x" and "x \<le> b"
  shows "\<exists>v. double_round x = Fin v \<and> a \<le> v \<and> v \<le> b"
proof -
  from double_round_mono [OF assms(3)] double_round_mono [OF assms(4)] assms(1,2)
  have "fle (Fin a) (double_round x) \<and> fle (double_round x) (Fin b)"
    by (simp add: is_double_def)
  then show ?thesis by (simp only: fle_Fin_iff)
qed

lemma is_double_simps [simp]: "is_double 0" "is_double 1" "is_double (49 / 2)"
  by (simp_all add: is_double_def)

lemma shift_of_unit:
  assumes "0 \<le> x" and "x \<le> 1"
  shows "significand_shift (x * 2 ^ 1074) \<le> 1022"
proof -
  have "significand_shift (x * 2 ^ 1074) \<le> significand_shift (2 ^ 1074)"
    using assms by (intro shift_mono) simp
  also have "significand_shift (2 ^ 1074) = 1022"
    by (rule shift_unique) simp_all
  finally show ?thesis .
qed

lemma abs_div_pos: "0 < c \<Longrightarrow> \<bar>a / c\<bar> = \<bar>a\<bar> / (c :: rat)"
  by simp

lemma abs_mult_pos: "0 < c \<Longrightarrow> \<bar>a * c\<bar> = \<bar>a\<bar> * (c :: rat)"
  by (simp add: abs_mult)

lemma round_magnitude_error:
  assumes "0 \<le> x" and "x \<le> 1"
  shows "\<bar>round_magnitude x - x\<bar> \<le> 1 / 2 ^ 53"
proof -
  define c :: rat where "c = 2 ^ 1074"
  have c: "0 < c" by (simp add: c_def)
  let ?y = "x * c"
  have rm: "round_magnitude x = round_scaled ?y / c"
    unfolding round_magnitude_def c_def ..
  have "round_magnitude x - x = (round_scaled ?y - ?y) / c"
    unfolding rm using c by (simp add: diff_divide_distrib)
  then have "\<bar>round_magnitude x - x\<bar> = \<bar>round_scaled ?y - ?y\<bar> / c"
    using c by (simp only: abs_div_pos)
  also have "\<dots> \<le> (2 ^ significand_shift ?y / 2) / c"
    using assms(1) c by (intro divide_right_mono round_scaled_error) simp_all
  also have "\<dots> \<le> (2 ^ 1022 / 2) / c"
    using shift_of_unit [OF assms, folded c_def] c
    by (intro divide_right_mono power_increasing) simp_all
  also have "\<dots> = 1 / 2 ^ 53" by (simp add: c_def)
  finally show ?thesis .
qed

lemma double_round_unit:
  assumes "0 \<le> x" and "x \<le> 1"
  shows "\<exists>v. double_round x = Fin v \<and> 0 \<le> v \<and> v \<le> 1 \<and> \<bar>v - x\<bar> \<le> 1 / 2 ^ 53"
proof -
  from double_round_between [OF _ _ assms] obtain v
    where v: "double_round x = Fin v" "0 \<le> v" "v \<le> 1" by auto
  have "v = round_magnitude x"
    using v(1) assms(1) by (auto simp: double_round_def round_to_double_def Let_def split: if_splits)
  with round_magnitude_error [OF assms] v show ?thesis by blast
qed

text \<open>Rounding to three decimals on \<open>[0, 1]\<close>.\<close>

lemma decimal_fixed:
  assumes "0 \<le> k" and "k \<le> 1000"
  shows "py_round (double_round (of_int k / 1000)) 3 = double_round (of_int k / 1000)"
proof -
  have "0 \<le> (of_int k / 1000 :: rat)" "(of_int k / 1000 :: rat) \<le> 1" using assms by simp_all
  from double_round_unit [OF this] obtain v
    where v: "double_round (of_int k / 1000) = Fin v" "\<bar>v - of_int k / 1000\<bar> \<le> 1 / 2 ^ 53"
    by blast
  have "v * 10 ^ 3 - of_int k = (v - of_int k / 1000) * 1000" by simp
  then have "\<bar>v * 10 ^ 3 - of_int k\<bar> = \<bar>v - of_int k / 1000\<bar> * 1000"
    by (simp only: abs_mult_pos)
  also have "\<dots> \<le> 1 / 2 ^ 53 * 1000" using v(2) by (intro mult_right_mono) simp_all
  also have "\<dots> < 1 / 2" by simp
  finally have "round_half_even (v * 10 ^ 3) = k" by (rule round_half_even_unique)
  then show ?thesis by (simp add: v(1))
qed

lemma py_round_unit:
  assumes "in_unit x"
  shows "\<exists>k. 0 \<le> k \<and> k \<le> 1000 \<and> py_round x 3 = double_round (of_int k / 1000)"
proof -
  from assms obtain r where r: "x = Fin r" "0 \<le> r" "r \<le> 1" by (auto simp: in_unit_iff)
  let ?k = "round_half_even (r * 10 ^ 3)"
  have "round_half_even 0 \<le> ?k" using r(2) by (intro round_half_even_mono) simp
  moreover have "?k \<le> round_half_even 1000" using r(3) by (intro round_half_even_mono) simp
  ultimately have "0 \<le> ?k" "?k \<le> 1000" by simp_all
  then show ?thesis using r(1) by auto
qed

lemma py_round_in_unit: "in_unit x \<Longrightarrow> in_unit (py_round x 3)"
proof -
  assume "in_unit x"
  from py_round_unit [OF this] obtain k
    where k: "0 \<le> k" "k \<le> 1000" "py_round x 3 = double_round (of_int k / 1000)" by blast
  have "0 \<le> (of_int k / 1000 :: rat)" "(of_int k / 1000 :: rat) \<le> 1" using k by simp_all
  from double_round_unit [OF this] show ?thesis unfolding k(3) in_unit_iff by blast
qed

lemma py_round_idem: "in_unit x \<Longrightarrow> py_round (py_round x 3) 3 = py_round x 3"
  using py_round_unit [of x] decimal_fixed by auto

lemma py_round_mono: "a \<le> b \<Longrightarrow> fle (py_round (Fin a) n) (py_round (Fin b) n)"
  by (simp add: double_round_mono round_half_even_mono divide_right_mono mult_right_mono)

lemma py_round_zero: "py_round (Fin 0) 3 = Fin 0"
  by simp

lemma py_round_one: "py_round (Fin 1) 3 = Fin 1"
  by simp

lemma py_round_NaN_iff: "py_round x n = NaN \<longleftrightarrow> x = NaN"
  by (cases x) simp_all

lemma np_clip_in_unit: "x \<noteq> NaN \<Longrightarrow> in_unit (np_clip x (Fin 0) (Fin 1))"
  by (cases x) (auto simp: np_clip_def in_unit_def)

lemma np_clip_NaN_iff: "np_clip x (Fin 0) (Fin 1) = NaN \<longleftrightarrow> x = NaN"
  by (cases x) (auto simp: np_clip_def)

section \<open>The normaliser\<close>

lemma fdiv_span: "fdiv a (fsub max_temp min_temp) = Inr (fquot a (Fin (49 / 2)))"
proof -
  have "fsub max_temp min_temp = Fin (49 / 2)"
    by (simp add: max_temp_def min_temp_def)
  then show ?thesis by (simp add: fdiv_def)
qed

text \<open>The three regions on a finite temperature, as used in the proofs below.\<close>

lemma temperature_to_percentage_finite:
  "temperature_to_percentage (Fin t) =
     Inr (if t \<le> 25 then Fin 0
          else if 99 / 2 \<le> t then Fin 1
          else py_round (fquot (fsub (Fin t) (Fin 25)) (Fin (49 / 2))) 3)"
  unfolding temperature_to_percentage_def fdiv_span
  by (simp add: min_temp_def max_temp_def fge_def del: py_round.simps fsub.simps fquot.simps)

lemma ratio_in_unit:
  assumes "25 \<le> t" and "t \<le> 99 / 2"
  shows "in_unit (fquot (fsub (Fin t) (Fin 25)) (Fin (49 / 2)))"
proof -
  have "0 \<le> t - 25" "t - 25 \<le> 49 / 2" using assms by simp_all
  from double_round_between [OF _ _ this] obtain a
    where a: "double_round (t - 25) = Fin a" "0 \<le> a" "a \<le> 49 / 2" by auto
  have "0 \<le> a / (49 / 2)" "a / (49 / 2) \<le> 1" using a(2,3) by simp_all
  from double_round_unit [OF this] show ?thesis
    by (auto simp: a(1) in_unit_iff)
qed

lemma temperature_to_percentage_total:
  "\<exists>p. temperature_to_percentage t = Inr p \<and> py_round p 3 = p \<and> (p = NaN \<longleftrightarrow> t = NaN)
       \<and> (t \<noteq> NaN \<longrightarrow> in_unit p)"
proof (cases t)
  case (Fin r)
  show ?thesis
  proof (cases "r \<le> 25 \<or> 99 / 2 \<le> r")
    case True
    then show ?thesis using Fin
      by (auto simp: temperature_to_percentage_finite in_unit_def)
  next
    case False
    let ?q = "fquot (fsub (Fin r) (Fin 25)) (Fin (49 / 2))"
    from False have eq: "temperature_to_percentage t = Inr (py_round ?q 3)"
      using Fin by (simp add: temperature_to_percentage_finite del: py_round.simps fsub.simps fquot.simps)
    from False have u: "in_unit ?q" by (intro ratio_in_unit) simp_all
    from py_round_in_unit [OF u] py_round_idem [OF u] show ?thesis
      unfolding eq using Fin
      by (auto simp: in_unit_iff simp del: py_round.simps fsub.simps fquot.simps)
  qed
next
  case NaN
  then show ?thesis
    by (simp add: temperature_to_percentage_def fdiv_def min_temp_def max_temp_def fge_def)
qed (simp_all add: temperature_to_percentage_def min_temp_def max_temp_def fge_def in_unit_def)

text \<open>
  C3. On every finite temperature the normaliser returns, and no branch raises: \<open>0.0\<close>
  at or below \<open>25.0\<close>, \<open>1.0\<close> at or above \<open>49.5\<close>, and between them
  \<^verbatim>\<open>round((t - 25.0) / 24.5, 3)\<close> as binary64 computes it: the difference is rounded to
  a double, so is its quotient by \<open>24.5\<close>, which is the double \<^verbatim>\<open>49.5 - 25.0\<close>
  exactly, and the quotient is rounded to three decimals.
\<close>

theorem temperature_to_percentage_piecewise:
  "temperature_to_percentage (Fin t) =
     Inr (if t \<le> 25 then Fin 0
          else if 99 / 2 \<le> t then Fin 1
          else py_round (fquot (fsub (Fin t) (Fin 25)) (Fin (49 / 2))) 3)"
proof -
  have "fsub max_temp min_temp = Fin (49 / 2)"
    by (simp add: max_temp_def min_temp_def)
  then have "fdiv a (fsub max_temp min_temp) = Inr (fquot a (Fin (49 / 2)))" for a
    by (simp add: fdiv_def)
  then show ?thesis
    unfolding temperature_to_percentage_def
    by (simp add: min_temp_def max_temp_def fge_def del: py_round.simps fsub.simps fquot.simps)
qed

text \<open>
  The double \<^verbatim>\<open>28.24625\<close>: the quotient rounds to \<open>133\<close> thousandths, and the result
  is the double \<^verbatim>\<open>0.133\<close>.
\<close>

lemma dr_review_sub: "double_round (913738143146967 / 281474976710656) = Fin (913738143146967 / 281474976710656)"
  by (rule double_round_cert [where s = 1023 and m = 7309905145175736]) simp_all

lemma dr_review_quot: "double_round (913738143146967 / 6896136929411072) = Fin (2386907802506363 / 18014398509481984)"
  by (rule double_round_cert [where s = 1019 and m = 4773815605012726]) simp_all

lemma dr_review_dec: "double_round (133 / 1000) = Fin (149744687610069 / 1125899906842624)"
  by (rule double_round_cert [where s = 1019 and m = 4791830003522208]) simp_all

lemma rhe_review: "round_half_even (298363475313295375 / 2251799813685248) = 133"
  by (rule round_half_even_unique) simp

theorem temperature_to_percentage_piecewise_witness:
  "is_double (7950612560913367 / 281474976710656)
   \<and> temperature_to_percentage (Fin (7950612560913367 / 281474976710656))
       = Inr (Fin (149744687610069 / 1125899906842624))
   \<and> double_round (133 / 1000) = Fin (149744687610069 / 1125899906842624)"
proof -
  have d: "is_double (7950612560913367 / 281474976710656)"
    unfolding is_double_def
    by (rule double_round_cert [where s = 1026 and m = 7950612560913367]) simp_all
  from temperature_to_percentage_piecewise [of "7950612560913367 / 281474976710656"] d
  show ?thesis
    by (simp add: dr_review_sub dr_review_quot dr_review_dec rhe_review)
qed

lemma t2p_Fin: "\<exists>p. temperature_to_percentage (Fin t) = Inr (Fin p) \<and> 0 \<le> p \<and> p \<le> 1"
  using temperature_to_percentage_total [of "Fin t"]
  by (auto simp: in_unit_iff)

lemma ratio_mono:
  assumes "25 \<le> t1" and "t1 \<le> t2" and "t2 \<le> 99 / 2"
  shows "\<exists>q1 q2. fquot (fsub (Fin t1) (Fin 25)) (Fin (49 / 2)) = Fin q1
            \<and> fquot (fsub (Fin t2) (Fin 25)) (Fin (49 / 2)) = Fin q2 \<and> q1 \<le> q2"
proof -
  have r1: "0 \<le> t1 - 25" "t1 - 25 \<le> 49 / 2" and r2: "0 \<le> t2 - 25" "t2 - 25 \<le> 49 / 2"
    using assms by simp_all
  from double_round_between [OF _ _ r1] obtain a1
    where a1: "double_round (t1 - 25) = Fin a1" "0 \<le> a1" "a1 \<le> 49 / 2" by auto
  from double_round_between [OF _ _ r2] obtain a2
    where a2: "double_round (t2 - 25) = Fin a2" "0 \<le> a2" "a2 \<le> 49 / 2" by auto
  have "fle (double_round (t1 - 25)) (double_round (t2 - 25))"
    using assms(2) by (intro double_round_mono) simp
  then have a12: "a1 \<le> a2" by (simp add: a1(1) a2(1))
  have u1: "0 \<le> a1 / (49 / 2)" "a1 / (49 / 2) \<le> 1" and u2: "0 \<le> a2 / (49 / 2)" "a2 / (49 / 2) \<le> 1"
    using a1(2,3) a2(2,3) by simp_all
  from double_round_unit [OF u1] obtain q1 where q1: "double_round (a1 / (49 / 2)) = Fin q1" by blast
  from double_round_unit [OF u2] obtain q2 where q2: "double_round (a2 / (49 / 2)) = Fin q2" by blast
  have "fle (double_round (a1 / (49 / 2))) (double_round (a2 / (49 / 2)))"
    using a12 by (intro double_round_mono) (simp add: divide_right_mono)
  then have "fle (Fin q1) (Fin q2)" by (simp only: q1 q2)
  then have "q1 \<le> q2" by simp
  then show ?thesis using a1(1) a2(1) q1 q2 by simp
qed

text \<open>
  C8. The normaliser is monotonically non-decreasing on the finite temperatures: for
  \<open>t1 \<le> t2\<close> both calls return finite values \<open>p1 \<le> p2\<close>. Each rounding of the
  computation, of the difference, of the quotient and to three decimals, is monotone, and
  the rounded value stays between the saturated values \<open>0.0\<close> and \<open>1.0\<close>.
\<close>

theorem temperature_to_percentage_monotone:
  assumes "t1 \<le> t2"
  shows "\<exists>p1 p2. temperature_to_percentage (Fin t1) = Inr (Fin p1)
           \<and> temperature_to_percentage (Fin t2) = Inr (Fin p2) \<and> p1 \<le> p2"
proof -
  obtain p1 where p1: "temperature_to_percentage (Fin t1) = Inr (Fin p1)" "0 \<le> p1" "p1 \<le> 1"
    using t2p_Fin by blast
  obtain p2 where p2: "temperature_to_percentage (Fin t2) = Inr (Fin p2)" "0 \<le> p2" "p2 \<le> 1"
    using t2p_Fin by blast
  have "p1 \<le> p2"
  proof (cases "t1 \<le> 25")
    case True
    then have "p1 = 0" using p1(1) by (simp add: temperature_to_percentage_finite)
    then show ?thesis using p2 by simp
  next
    case lo: False
    show ?thesis
    proof (cases "99 / 2 \<le> t2")
      case True
      then have "p2 = 1" using p2(1) lo assms by (simp add: temperature_to_percentage_finite)
      then show ?thesis using p1 by simp
    next
      case False
      from ratio_mono [of t1 t2] lo False assms obtain q1 q2
        where q: "fquot (fsub (Fin t1) (Fin 25)) (Fin (49 / 2)) = Fin q1"
          "fquot (fsub (Fin t2) (Fin 25)) (Fin (49 / 2)) = Fin q2" "q1 \<le> q2"
        by auto
      from lo False assms have e:
        "py_round (Fin q1) 3 = Fin p1" "py_round (Fin q2) 3 = Fin p2"
        using p1(1) p2(1) unfolding temperature_to_percentage_finite q(1,2) [symmetric]
        by (simp_all del: py_round.simps fsub.simps fquot.simps)
      from py_round_mono [OF q(3), of 3] have "fle (Fin p1) (Fin p2)"
        by (simp only: e)
      then show ?thesis by simp
    qed
  qed
  with p1 p2 show ?thesis by blast
qed

text \<open>The doubles \<^verbatim>\<open>30.0\<close> and \<^verbatim>\<open>40.0\<close>, with the results \<^verbatim>\<open>0.204\<close> and \<^verbatim>\<open>0.612\<close>.\<close>

lemma is_double_30_40: "is_double 30" "is_double 40"
  unfolding is_double_def
  by (rule double_round_cert [where s = 1026 and m = "15 * 2 ^ 49"], simp_all,
      rule double_round_cert [where s = 1027 and m = "5 * 2 ^ 50"], simp_all)

lemma dr_w30_sub: "double_round 5 = Fin 5"
  by (rule double_round_cert [where s = 1024 and m = 5629499534213120]) simp_all

lemma dr_w30_quot: "double_round (10 / 49) = Fin (919101964769489 / 4503599627370496)"
  by (rule double_round_cert [where s = 1019 and m = 7352815718155912]) simp_all

lemma dr_w30_dec: "double_round (51 / 250) = Fin (7349874591868649 / 36028797018963968)"
  by (rule double_round_cert [where s = 1019 and m = 7349874591868649]) simp_all

lemma rhe_w30: "round_half_even (114887745596186125 / 562949953421312) = 204"
  by (rule round_half_even_unique) simp

lemma dr_w40_sub: "double_round 15 = Fin 15"
  by (rule double_round_cert [where s = 1025 and m = 8444249301319680]) simp_all

lemma dr_w40_quot: "double_round (30 / 49) = Fin (2757305894308467 / 4503599627370496)"
  by (rule double_round_cert [where s = 1021 and m = 5514611788616934]) simp_all

lemma dr_w40_dec: "double_round (153 / 250) = Fin (5512405943901487 / 9007199254740992)"
  by (rule double_round_cert [where s = 1021 and m = 5512405943901487]) simp_all

lemma rhe_w40: "round_half_even (344663236788558375 / 562949953421312) = 612"
  by (rule round_half_even_unique) simp

lemma t2p_30_40:
  "temperature_to_percentage (Fin 30) = Inr (Fin (7349874591868649 / 36028797018963968))"
  "temperature_to_percentage (Fin 40) = Inr (Fin (5512405943901487 / 9007199254740992))"
  by (simp_all add: temperature_to_percentage_finite dr_w30_sub dr_w30_quot dr_w30_dec rhe_w30
        dr_w40_sub dr_w40_quot dr_w40_dec rhe_w40)

theorem temperature_to_percentage_monotone_witness:
  "is_double 30 \<and> is_double 40 \<and> (30 :: rat) \<le> 40
   \<and> temperature_to_percentage (Fin 30) = Inr (Fin (7349874591868649 / 36028797018963968))
   \<and> temperature_to_percentage (Fin 40) = Inr (Fin (5512405943901487 / 9007199254740992))
   \<and> (7349874591868649 / 36028797018963968 :: rat) \<le> 5512405943901487 / 9007199254740992"
proof -
  from temperature_to_percentage_monotone [of 30 40] obtain p1 p2
    where "temperature_to_percentage (Fin 30) = Inr (Fin p1)"
      "temperature_to_percentage (Fin 40) = Inr (Fin p2)" "p1 \<le> p2"
    by auto
  with t2p_30_40
  have "(7349874591868649 / 36028797018963968 :: rat) \<le> 5512405943901487 / 9007199254740992"
    by simp
  with is_double_30_40 t2p_30_40 show ?thesis by simp
qed

section \<open>The sort\<close>

lemma str_lt_less: "str_lt s t \<longleftrightarrow> s < t"
  by (induction s t rule: str_lt.induct) (auto simp: less_char_def)

lemma py_lt_num: "num_key a \<Longrightarrow> num_key b \<Longrightarrow> py_lt a b = Inr (num_rank a < num_rank b)"
  by (cases "num_of a"; cases "num_of b"; cases "the (num_of a)"; cases "the (num_of b)")
     (auto simp: num_key_def num_rank_def py_lt_def less_prod_def)

lemma py_lt_str: "str_key a \<Longrightarrow> str_key b \<Longrightarrow> py_lt a b = Inr (str_rank a < str_rank b)"
  by (cases a; cases b) (auto simp: str_key_def str_rank_def py_lt_def str_lt_less)

lemma py_lt_Inr_class:
  assumes "py_lt a b = Inr c"
  shows "(num_of a \<noteq> None \<and> num_of b \<noteq> None) \<or> (str_key a \<and> str_key b)"
  using assms by (cases a; cases b) (auto simp: py_lt_def str_key_def)

lemma str_key_not_num: "str_key a \<Longrightarrow> num_of a = None"
  by (cases a) (auto simp: str_key_def)

lemma py_insort_ranked:
  fixes r :: "pyval \<Rightarrow> 'b::linorder"
  assumes "\<And>y. y \<in> set ys \<Longrightarrow> py_lt (k y) (k x) = Inr (r (k y) < r (k x))"
  shows "py_insort k x ys = Inr (insort_key (\<lambda>x. r (k x)) x ys)"
  using assms by (induction ys) (auto simp: not_less not_le split: bool.splits)

lemma insertion_sort_ranked:
  fixes r :: "pyval \<Rightarrow> 'b::linorder"
  assumes "\<And>x y. x \<in> set xs \<Longrightarrow> y \<in> set xs \<Longrightarrow> py_lt (k y) (k x) = Inr (r (k y) < r (k x))"
  shows "insertion_sort k xs = Inr (sort_key (\<lambda>x. r (k x)) xs)"
  using assms
proof (induction xs)
  case Nil
  then show ?case by simp
next
  case (Cons x xs)
  then have "insertion_sort k xs = Inr (sort_key (\<lambda>x. r (k x)) xs)" by simp
  moreover have "py_insort k x (sort_key (\<lambda>x. r (k x)) xs)
      = Inr (insort_key (\<lambda>x. r (k x)) x (sort_key (\<lambda>x. r (k x)) xs))"
    using Cons.prems by (intro py_insort_ranked) simp
  ultimately show ?case by simp
qed

lemma py_insort_mset: "py_insort k x ys = Inr zs \<Longrightarrow> mset zs = add_mset x (mset ys)"
  by (induction ys arbitrary: zs) (auto split: sum.splits bool.splits)

lemma insertion_sort_mset: "insertion_sort k xs = Inr ys \<Longrightarrow> mset ys = mset xs"
  by (induction xs arbitrary: ys) (auto split: sum.splits dest: py_insort_mset)

lemma permute_mset: "mset (permute p xs) = mset xs"
proof (cases "mset p = mset [0..<length xs]")
  case True
  have "mset (map (nth xs) p) = image_mset (nth xs) (mset p)" by simp
  also have "\<dots> = mset (map (nth xs) [0..<length xs])" by (simp add: True)
  also have "\<dots> = mset xs" by (simp add: map_nth)
  finally show ?thesis using True by (simp add: permute_def)
next
  case False
  then show ?thesis by (simp add: permute_def)
qed

lemma py_sort_mset: "py_sort E k xs = Inr ys \<Longrightarrow> mset ys = mset xs"
  by (auto simp: py_sort_def permute_mset insertion_sort_mset split: if_splits)

text \<open>A sort that returns has compared keys of one kind only.\<close>

lemma py_insort_Inr_class:
  assumes "py_insort k x (y # ys) = Inr zs"
  shows "(num_of (k x) \<noteq> None \<and> num_of (k y) \<noteq> None) \<or> (str_key (k x) \<and> str_key (k y))"
proof -
  from assms obtain c where "py_lt (k y) (k x) = Inr c"
    by (cases "py_lt (k y) (k x)") auto
  from py_lt_Inr_class [OF this] show ?thesis by blast
qed

lemma insertion_sort_Inr_class:
  assumes "insertion_sort k xs = Inr ys"
  shows "length xs \<le> 1 \<or> (\<forall>x\<in>set xs. num_of (k x) \<noteq> None) \<or> (\<forall>x\<in>set xs. str_key (k x))"
  using assms
proof (induction xs arbitrary: ys)
  case Nil
  then show ?case by simp
next
  case (Cons x xs)
  from Cons.prems obtain zs where zs: "insertion_sort k xs = Inr zs" "py_insort k x zs = Inr ys"
    by (auto split: sum.splits)
  show ?case
  proof (cases xs)
    case Nil
    then show ?thesis by simp
  next
    case (Cons x' xs')
    with insertion_sort_mset [OF zs(1)] have "zs \<noteq> []" by auto
    then obtain z zs' where z: "zs = z # zs'" by (cases zs) auto
    have "z \<in> set xs" using insertion_sort_mset [OF zs(1)] z
      by (metis list.set_intros(1) set_mset_mset)
    from Cons.IH [OF zs(1)]
    consider "xs = [z]" | "\<forall>x\<in>set xs. num_of (k x) \<noteq> None" | "\<forall>x\<in>set xs. str_key (k x)"
      using \<open>z \<in> set xs\<close> by (cases xs) auto
    note ih = this
    from py_insort_Inr_class [OF zs(2) [unfolded z]]
    consider "num_of (k x) \<noteq> None" "num_of (k z) \<noteq> None" | "str_key (k x)" "str_key (k z)"
      by blast
    then show ?thesis
    proof cases
      case 1
      have "\<forall>x\<in>set xs. num_of (k x) \<noteq> None"
        using ih 1(2) \<open>z \<in> set xs\<close> by cases (fastforce dest: str_key_not_num)+
      with 1(1) show ?thesis by simp
    next
      case 2
      have "\<forall>x\<in>set xs. str_key (k x)"
        using ih 2(2) \<open>z \<in> set xs\<close> by cases (fastforce dest: str_key_not_num)+
      with 2(1) show ?thesis by simp
    qed
  qed
qed

lemma ranked_sort:
  fixes r :: "pyval \<Rightarrow> 'b::linorder"
  assumes cls: "\<forall>x\<in>set xs. P (k x)"
    and lt: "\<And>a b. P a \<Longrightarrow> P b \<Longrightarrow> py_lt a b = Inr (r a < r b)"
  shows "insertion_sort k xs = Inr (sort_key (\<lambda>x. r (k x)) xs)"
    and "sorted_wrt (\<lambda>p q. py_lt (k q) (k p) = Inr False) (sort_key (\<lambda>x. r (k x)) xs)"
    and "\<forall>x0\<in>set xs. filter (\<lambda>p. same_key (k p) (k x0)) (sort_key (\<lambda>x. r (k x)) xs)
                      = filter (\<lambda>p. same_key (k p) (k x0)) xs"
proof -
  let ?ys = "sort_key (\<lambda>x. r (k x)) xs"
  show "insertion_sort k xs = Inr ?ys"
    using cls lt by (intro insertion_sort_ranked) simp
  have "sorted (map (\<lambda>x. r (k x)) ?ys)" by (rule sorted_sort_key)
  then have "sorted_wrt (\<lambda>p q. r (k p) \<le> r (k q)) ?ys" by (simp add: sorted_map)
  moreover have "py_lt (k q) (k p) = Inr False"
    if "p \<in> set ?ys" "q \<in> set ?ys" "r (k p) \<le> r (k q)" for p q
    using that cls lt [of "k q" "k p"] by (simp add: not_less)
  ultimately show "sorted_wrt (\<lambda>p q. py_lt (k q) (k p) = Inr False) ?ys"
    by (rule sorted_wrt_mono_rel [rotated]) simp_all
  show "\<forall>x0\<in>set xs. filter (\<lambda>p. same_key (k p) (k x0)) ?ys = filter (\<lambda>p. same_key (k p) (k x0)) xs"
  proof
    fix x0 assume x0: "x0 \<in> set xs"
    have same: "same_key (k p) (k x0) \<longleftrightarrow> r (k p) = r (k x0)" if "p \<in> set xs" for p
      using that x0 cls lt [of "k p" "k x0"] lt [of "k x0" "k p"]
      by (auto simp: same_key_def)
    have "filter (\<lambda>p. same_key (k p) (k x0)) zs = filter (\<lambda>p. r (k p) = r (k x0)) zs"
      if "set zs = set xs" for zs
      using that same by (intro filter_cong) auto
    then show "filter (\<lambda>p. same_key (k p) (k x0)) ?ys = filter (\<lambda>p. same_key (k p) (k x0)) xs"
      using sort_key_stable [of "\<lambda>x. r (k x)" "r (k x0)" xs] by simp
  qed
qed

lemma num_key_iff: "num_key v \<longleftrightarrow> num_of v \<noteq> None \<and> v \<noteq> PFloat NaN"
  by (cases v) (auto simp: num_key_def)

lemma unordered_iff:
  "unordered ks \<longleftrightarrow> 2 \<le> length ks \<and> (\<forall>k\<in>set ks. num_of k \<noteq> None) \<and> PFloat NaN \<in> set ks"
proof -
  have "num_of k = Some NaN \<longleftrightarrow> k = PFloat NaN" for k by (cases k) auto
  then show ?thesis by (auto simp: unordered_def list_all_iff list_ex_iff)
qed

text \<open>The sort on keys of one kind and without NaN.\<close>

lemma py_sort_ordered:
  assumes nan: "\<forall>x\<in>set xs. k x \<noteq> PFloat NaN"
    and cls: "length xs \<le> 1 \<or> (\<forall>x\<in>set xs. num_of (k x) \<noteq> None) \<or> (\<forall>x\<in>set xs. str_key (k x))"
  shows "\<exists>ys. py_sort E k xs = Inr ys
           \<and> sorted_wrt (\<lambda>p q. py_lt (k q) (k p) = Inr False) ys
           \<and> (\<forall>x0\<in>set xs. filter (\<lambda>p. same_key (k p) (k x0)) ys
                              = filter (\<lambda>p. same_key (k p) (k x0)) xs)"
proof -
  have ins: "py_sort E k xs = insertion_sort k xs"
    using nan by (auto simp: py_sort_def unordered_iff)
  from cls consider "length xs \<le> 1" | "\<forall>x\<in>set xs. num_key (k x)" | "\<forall>x\<in>set xs. str_key (k x)"
    using nan by (auto simp: num_key_iff)
  then show ?thesis
  proof cases
    case 1
    then have "xs = [] \<or> (\<exists>x. xs = [x])" by (cases xs) auto
    then show ?thesis unfolding ins by auto
  next
    case 2
    from ranked_sort [of xs num_key k num_rank, OF 2 py_lt_num] show ?thesis
      unfolding ins by blast
  next
    case 3
    from ranked_sort [of xs str_key k str_rank, OF 3 py_lt_str] show ?thesis
      unfolding ins by blast
  qed
qed

section \<open>The sanitiser\<close>

lemma process_point_fields:
  assumes "process_point E dp = Inr (Some p)"
  shows "pp_original_data p = dp"
    and "pp_timestamp p = get_default dp ''timestamp'' (PInt 0)"
    and "pp_time p = get_default dp ''time'' (PStr '''')"
    and "temperature_to_percentage (pp_temperature p) = Inr (pp_fault_probability p)"
  using assms
  by (auto simp: process_point_def split: sum.splits option.splits)

lemma point_of_Some: "point_of E dp = Some p \<longleftrightarrow> process_point E dp = Inr (Some p)"
  by (auto simp: point_of_def split: sum.splits option.splits)

lemma process_loop_no_escape:
  "\<forall>dp\<in>set raw. \<not> escapes E dp \<Longrightarrow>
     process_loop E raw acc = Inr (acc @ List.map_filter (point_of E) raw)"
proof (induction raw arbitrary: acc)
  case Nil
  then show ?case by simp
next
  case (Cons dp raw)
  then show ?case
    by (cases "process_point E dp")
       (auto simp: escapes_def point_of_def split: option.splits)
qed

lemma process_loop_Inr_no_escape:
  "process_loop E raw acc = Inr ps \<Longrightarrow> \<forall>dp\<in>set raw. \<not> escapes E dp"
proof (induction raw arbitrary: acc)
  case Nil
  then show ?case by simp
next
  case (Cons dp raw)
  then show ?case
    by (cases "process_point E dp")
       (auto simp: escapes_def split: option.splits if_splits)
qed

lemma process_loop_Inr_iff:
  "process_loop E raw [] = Inr ps \<longleftrightarrow>
     (\<forall>dp\<in>set raw. \<not> escapes E dp) \<and> ps = List.map_filter (point_of E) raw"
  using process_loop_no_escape [of raw E "[]"] process_loop_Inr_no_escape [of E raw "[]" ps]
  by auto

lemma map_filter_point_of_original:
  "map pp_original_data (List.map_filter (point_of E) raw) = filter (\<lambda>dp. point_of E dp \<noteq> None) raw"
proof (induction raw)
  case Nil
  then show ?case by simp
next
  case (Cons dp raw)
  show ?case
  proof (cases "point_of E dp")
    case None
    with Cons show ?thesis by simp
  next
    case (Some p)
    then have "pp_original_data p = dp"
      using process_point_fields(1) point_of_Some by blast
    with Some Cons show ?thesis by simp
  qed
qed

lemma mset_map_filter_perm:
  "mset xs = mset ys \<Longrightarrow> mset (List.map_filter f xs) = mset (List.map_filter f ys)"
proof -
  have "mset (List.map_filter f zs) = image_mset (the \<circ> f) (filter_mset (\<lambda>x. f x \<noteq> None) (mset zs))" for zs
    by (simp add: List.map_filter_def)
  then show "mset xs = mset ys \<Longrightarrow> ?thesis" by simp
qed

lemma map_filter_point_of_timestamp:
  "p \<in> set (List.map_filter (point_of E) raw) \<Longrightarrow>
     pp_timestamp p = get_default (pp_original_data p) ''timestamp'' (PInt 0)"
proof -
  assume "p \<in> set (List.map_filter (point_of E) raw)"
  then obtain dp where "point_of E dp = Some p"
    by (auto simp: List.map_filter_def)
  then have "process_point E dp = Inr (Some p)" by (simp add: point_of_Some)
  from process_point_fields(1,2) [OF this] show ?thesis by simp
qed

lemma py_sort_Inr_class:
  assumes "py_sort E k xs = Inr ys"
  shows "length xs \<le> 1 \<or> (\<forall>x\<in>set xs. num_of (k x) \<noteq> None) \<or> (\<forall>x\<in>set xs. str_key (k x))"
proof (cases "unordered (map k xs)")
  case True
  then show ?thesis by (simp add: unordered_iff)
next
  case False
  with assms have "insertion_sort k xs = Inr ys" by (simp add: py_sort_def)
  then show ?thesis by (rule insertion_sort_Inr_class)
qed

text \<open>
  C5 (as amended). When the sanitiser returns on a list of raw records and no point has
  the timestamp NaN, it returns on every permutation of the list, with the same points,
  in ascending order of timestamp: no point has a timestamp less than that of a point
  before it. The sort is stable: the points whose timestamps equal that of any one point
  stand in the order of their records in the input. A point whose record has no timestamp
  has the timestamp 0.
\<close>

theorem process_raw_data_sorted_stable:
  assumes ret: "process_raw_data E raw = Inr ps"
    and nan: "\<forall>p\<in>set ps. pp_timestamp p \<noteq> PFloat NaN"
    and perm: "mset raw' = mset raw"
  shows "\<exists>pts' ps'. process_loop E raw' [] = Inr pts' \<and> process_raw_data E raw' = Inr ps'
           \<and> mset ps' = mset ps
           \<and> map pp_original_data pts' = filter (\<lambda>dp. point_of E dp \<noteq> None) raw'
           \<and> sorted_wrt (\<lambda>p q. py_lt (pp_timestamp q) (pp_timestamp p) = Inr False) ps'
           \<and> (\<forall>p0\<in>set ps'. filter (\<lambda>p. same_key (pp_timestamp p) (pp_timestamp p0)) ps'
                              = filter (\<lambda>p. same_key (pp_timestamp p) (pp_timestamp p0)) pts')
           \<and> (\<forall>p\<in>set ps'. pp_timestamp p = get_default (pp_original_data p) ''timestamp'' (PInt 0))"
proof -
  define pts where "pts = List.map_filter (point_of E) raw"
  define pts' where "pts' = List.map_filter (point_of E) raw'"
  from ret have loop: "process_loop E raw [] = Inr pts" and srt: "py_sort E pp_timestamp pts = Inr ps"
    by (auto simp: process_raw_data_def pts_def process_loop_Inr_iff split: sum.splits)
  from loop have "\<forall>dp\<in>set raw. \<not> escapes E dp" by (simp add: process_loop_Inr_iff)
  moreover from perm have "set raw' = set raw" by (rule mset_eq_setD)
  ultimately have loop': "process_loop E raw' [] = Inr pts'"
    by (simp add: process_loop_Inr_iff pts'_def)
  have m: "mset pts' = mset pts"
    unfolding pts_def pts'_def using perm by (rule mset_map_filter_perm)
  then have s: "set pts' = set pts" and l: "length pts' = length pts"
    by (auto dest: mset_eq_setD mset_eq_length)
  from srt have mp: "mset ps = mset pts" by (rule py_sort_mset)
  then have "set ps = set pts" by (rule mset_eq_setD)
  with nan s have nan': "\<forall>x\<in>set pts'. pp_timestamp x \<noteq> PFloat NaN" by simp
  from py_sort_Inr_class [OF srt] s l
  have cls: "length pts' \<le> 1 \<or> (\<forall>x\<in>set pts'. num_of (pp_timestamp x) \<noteq> None)
               \<or> (\<forall>x\<in>set pts'. str_key (pp_timestamp x))"
    by simp
  from py_sort_ordered [OF nan' cls, of E] obtain ps' where
    srt': "py_sort E pp_timestamp pts' = Inr ps'"
    and ord: "sorted_wrt (\<lambda>p q. py_lt (pp_timestamp q) (pp_timestamp p) = Inr False) ps'"
    and stab: "\<forall>x0\<in>set pts'. filter (\<lambda>p. same_key (pp_timestamp p) (pp_timestamp x0)) ps'
                 = filter (\<lambda>p. same_key (pp_timestamp p) (pp_timestamp x0)) pts'"
    by blast
  from srt' have mp': "mset ps' = mset pts'" by (rule py_sort_mset)
  then have s': "set ps' = set pts'" by (rule mset_eq_setD)
  have ret': "process_raw_data E raw' = Inr ps'"
    using loop' srt' by (simp add: process_raw_data_def)
  have ms: "mset ps' = mset ps" using mp mp' m by simp
  have orig: "map pp_original_data pts' = filter (\<lambda>dp. point_of E dp \<noteq> None) raw'"
    unfolding pts'_def by (rule map_filter_point_of_original)
  have dflt: "\<forall>p\<in>set ps'. pp_timestamp p = get_default (pp_original_data p) ''timestamp'' (PInt 0)"
    unfolding s' pts'_def by (blast intro: map_filter_point_of_timestamp)
  from stab have stab': "\<forall>x0\<in>set ps'. filter (\<lambda>p. same_key (pp_timestamp p) (pp_timestamp x0)) ps'
                 = filter (\<lambda>p. same_key (pp_timestamp p) (pp_timestamp x0)) pts'"
    unfolding s' .
  show ?thesis
    by (rule exI [of _ pts'], rule exI [of _ ps']) (intro conjI loop' ret' ms orig ord stab' dflt)
qed

section \<open>The series and the reports\<close>

lemma length_time_labels: "length time_labels = 11"
  by (simp add: time_labels_def)

lemma length_target_hours: "length target_hours = 11"
  by (simp add: target_hours_def)

lemma target_timestamps_props:
  "snd (generate_target_timestamps clk n) = n + 1"
  "length (fst (generate_target_timestamps clk n)) = 11"
  "fst (generate_target_timestamps clk n) = map (\<lambda>hour. py_int (dt_hour_timestamp (clk n) hour)) target_hours"
  by (simp_all add: generate_target_timestamps_def Let_def length_target_hours)

lemma recent_dates_props:
  "snd (get_recent_dates clk n) = n + 7"
  "length (fst (get_recent_dates clk n)) = 7"
  by (simp_all add: get_recent_dates_def)

lemma map_enumerate:
  "map (\<lambda>(i, x). f i x) (enumerate 0 xs) = map (\<lambda>i. f i (xs ! i)) [0..<length xs]"
  by (rule nth_equalityI) (simp_all add: nth_enumerate_eq)

lemma map_nth_labels: "map (\<lambda>i. time_labels ! i) [0..<11] = time_labels"
  using map_nth [of time_labels] by (simp add: length_time_labels)

lemma replicate_upt: "map (\<lambda>i. c) [0..<m] = replicate m c"
  by (simp add: map_replicate_const)

lemma empty_series_props:
  "map sp_probability (timeSeries (fst (get_empty_time_series clk n))) = replicate 11 (Fin 0)"
  "map sp_time (timeSeries (fst (get_empty_time_series clk n))) = time_labels"
  "map sp_timestamp (timeSeries (fst (get_empty_time_series clk n))) =
     map (\<lambda>i. py_int (dt_timestamp (clk (n + i)))) [0..<11]"
  "availableWaterJets (fst (get_empty_time_series clk n)) = [''WaterJet_01'']"
  "latestData (fst (get_empty_time_series clk n)) =
     \<lparr>ld_temperature = Fin 25, ld_faultProbability = Fin 0,
      ld_timestamp = PStr (dt_isoformat (clk (n + 11)))\<rparr>"
  "snd (get_empty_time_series clk n) = n + 19"
  by (simp_all add: get_empty_time_series_def Let_def split_beta map_enumerate
        length_time_labels recent_dates_props o_def map_nth_labels replicate_upt)

lemma series_zip:
  fixes tt :: "int list" and f :: "pyfloat \<Rightarrow> pyfloat"
  assumes "length ps = length ls" and "length tt = length ls"
  defines "ser \<equiv> map (\<lambda>(i, (l, p)). \<lparr>sp_time = l, sp_probability = f p, sp_timestamp = tt ! i\<rparr>)
                       (enumerate 0 (zip ls ps))"
  shows "map sp_time ser = ls"
    and "map sp_probability ser = map f ps"
    and "map sp_timestamp ser = tt"
    and "length ser = length ls"
proof -
  show "map sp_time ser = ls"
    unfolding ser_def using assms(1,2) by (intro nth_equalityI) (simp_all add: nth_enumerate_eq)
  show "map sp_probability ser = map f ps"
    unfolding ser_def using assms(1,2) by (intro nth_equalityI) (simp_all add: nth_enumerate_eq)
  show "map sp_timestamp ser = tt"
    unfolding ser_def using assms(1,2) by (intro nth_equalityI) (simp_all add: nth_enumerate_eq)
  show "length ser = length ls"
    unfolding ser_def using assms(1,2) by simp
qed

lemma series_body_raises:
  assumes "fit_raises E ps"
  shows "\<exists>e. series_body E clk n ps = Inl (e, n + 1)"
  using assms
  by (cases "interp1d E (map pp_timestamp ps) (map pp_fault_probability ps)")
     (simp_all add: fit_raises_def series_body_def interpolated_probabilities_def split_beta
        target_timestamps_props Let_def)

lemma series_body_returns:
  assumes "ps \<noteq> []"
    and "interpolated_probabilities E (fst (generate_target_timestamps clk n))
           (map pp_timestamp ps) (map pp_fault_probability ps) = Inr probs"
    and "length probs = 11"
  shows "\<exists>r. series_body E clk n ps = Inr (r, n + 8)
           \<and> map sp_probability (timeSeries r) = map (\<lambda>p. py_round p 3) probs
           \<and> map sp_time (timeSeries r) = time_labels
           \<and> map sp_timestamp (timeSeries r) = fst (generate_target_timestamps clk n)
           \<and> latestData r = normal_latest ps
           \<and> availableWaterJets r = [''WaterJet_01'', ''WaterJet_02'', ''WaterJet_03'']
           \<and> availableDates r = fst (get_recent_dates clk (n + 1))"
proof -
  let ?tt = "fst (generate_target_timestamps clk n)"
  let ?ser = "map (\<lambda>(i, (l, p)). \<lparr>sp_time = l, sp_probability = py_round p 3, sp_timestamp = ?tt ! i\<rparr>)
                  (enumerate 0 (zip time_labels probs))"
  have eq: "series_body E clk n ps =
      Inr (\<lparr>timeSeries = ?ser, latestData = normal_latest ps,
            availableWaterJets = [''WaterJet_01'', ''WaterJet_02'', ''WaterJet_03''],
            availableDates = fst (get_recent_dates clk (n + 1))\<rparr>, n + 8)"
    using assms(1)
    by (simp add: series_body_def split_beta Let_def assms(2) target_timestamps_props(1)
          recent_dates_props normal_latest_def del: py_round.simps)
  have len: "length probs = length time_labels" "length ?tt = length time_labels"
    using assms(3) by (simp_all add: length_time_labels target_timestamps_props(2))
  from series_zip(1-3) [OF len, of "\<lambda>p. py_round p 3"] show ?thesis
    unfolding eq by simp
qed

text \<open>The three paths of \<open>generate_time_series_data\<close>.\<close>

lemma generate_empty: "generate_time_series_data E clk n [] = get_empty_time_series clk n"
  by (simp add: generate_time_series_data_def)

lemma generate_fallback:
  assumes "fit_raises E ps"
  shows "generate_time_series_data E clk n ps = get_empty_time_series clk (n + 1)"
proof -
  from assms have "ps \<noteq> []" by (auto simp: fit_raises_def)
  moreover obtain e where "series_body E clk n ps = Inl (e, n + 1)"
    using series_body_raises [OF assms] by blast
  ultimately show ?thesis by (simp add: generate_time_series_data_def)
qed

lemma interpolated_single:
  assumes "length ps = 1"
  shows "interpolated_probabilities E (fst (generate_target_timestamps clk n))
           (map pp_timestamp ps) (map pp_fault_probability ps)
         = Inr (replicate 11 (pp_fault_probability (hd ps)))"
  using assms
  by (cases ps) (simp_all add: interpolated_probabilities_def target_timestamps_props(2))

lemma interpolated_fit:
  assumes "2 \<le> length ps"
    and "interp1d E (map pp_timestamp ps) (map pp_fault_probability ps) = Inr g"
  shows "interpolated_probabilities E (fst (generate_target_timestamps clk n))
           (map pp_timestamp ps) (map pp_fault_probability ps)
         = Inr (map (\<lambda>t. np_clip (g t) (Fin 0) (Fin 1)) (fst (generate_target_timestamps clk n)))"
  using assms by (simp add: interpolated_probabilities_def)

lemma generate_single:
  assumes "length ps = 1"
  shows "\<exists>r. generate_time_series_data E clk n ps = (r, n + 8)
           \<and> map sp_probability (timeSeries r) = replicate 11 (py_round (pp_fault_probability (hd ps)) 3)
           \<and> map sp_time (timeSeries r) = time_labels
           \<and> map sp_timestamp (timeSeries r) = fst (generate_target_timestamps clk n)
           \<and> latestData r = normal_latest ps
           \<and> availableWaterJets r = [''WaterJet_01'', ''WaterJet_02'', ''WaterJet_03'']"
proof -
  from assms have ne: "ps \<noteq> []" by auto
  have len: "length (replicate 11 (pp_fault_probability (hd ps))) = 11" by simp
  from series_body_returns [OF ne interpolated_single [OF assms, of E clk n] len]
  obtain r where "series_body E clk n ps = Inr (r, n + 8)"
    "map sp_probability (timeSeries r) = map (\<lambda>p. py_round p 3) (replicate 11 (pp_fault_probability (hd ps)))"
    "map sp_time (timeSeries r) = time_labels"
    "map sp_timestamp (timeSeries r) = fst (generate_target_timestamps clk n)"
    "latestData r = normal_latest ps"
    "availableWaterJets r = [''WaterJet_01'', ''WaterJet_02'', ''WaterJet_03'']"
    by auto
  with ne show ?thesis by (simp add: generate_time_series_data_def del: py_round.simps)
qed

lemma generate_fit:
  assumes "2 \<le> length ps"
    and "interp1d E (map pp_timestamp ps) (map pp_fault_probability ps) = Inr g"
  shows "\<exists>r. generate_time_series_data E clk n ps = (r, n + 8)
           \<and> map sp_probability (timeSeries r) =
               map (\<lambda>t. py_round (np_clip (g t) (Fin 0) (Fin 1)) 3) (fst (generate_target_timestamps clk n))
           \<and> map sp_time (timeSeries r) = time_labels
           \<and> map sp_timestamp (timeSeries r) = fst (generate_target_timestamps clk n)
           \<and> latestData r = normal_latest ps
           \<and> availableWaterJets r = [''WaterJet_01'', ''WaterJet_02'', ''WaterJet_03'']"
proof -
  from assms have ne: "ps \<noteq> []" by auto
  have len: "length (map (\<lambda>t. np_clip (g t) (Fin 0) (Fin 1)) (fst (generate_target_timestamps clk n))) = 11"
    by (simp add: target_timestamps_props(2))
  from series_body_returns [OF ne interpolated_fit [OF assms] len]
  obtain r where "series_body E clk n ps = Inr (r, n + 8)"
    "map sp_probability (timeSeries r) = map (\<lambda>p. py_round p 3)
        (map (\<lambda>t. np_clip (g t) (Fin 0) (Fin 1)) (fst (generate_target_timestamps clk n)))"
    "map sp_time (timeSeries r) = time_labels"
    "map sp_timestamp (timeSeries r) = fst (generate_target_timestamps clk n)"
    "latestData r = normal_latest ps"
    "availableWaterJets r = [''WaterJet_01'', ''WaterJet_02'', ''WaterJet_03'']"
    by auto
  with ne show ?thesis by (simp add: generate_time_series_data_def o_def del: py_round.simps)
qed

lemma not_fit_raises_cases:
  assumes "ps \<noteq> []" and "\<not> fit_raises E ps"
  obtains "length ps = 1"
  | g where "2 \<le> length ps" "interp1d E (map pp_timestamp ps) (map pp_fault_probability ps) = Inr g"
proof (cases "2 \<le> length ps")
  case True
  with assms(2) obtain g where "interp1d E (map pp_timestamp ps) (map pp_fault_probability ps) = Inr g"
    by (cases "interp1d E (map pp_timestamp ps) (map pp_fault_probability ps)")
       (auto simp: fit_raises_def)
  with True that(2) show ?thesis by blast
next
  case False
  moreover from assms(1) have "length ps \<noteq> 0" by simp
  ultimately have "length ps = 1" by linarith
  with that(1) show ?thesis by blast
qed

section \<open>The examples\<close>

lemma dr_d_sub: "double_round (689613692941107 / 70368744177664) = Fin (689613692941107 / 70368744177664)"
  by (rule double_round_cert [where s = 1025 and m = 5516909543528856]) simp_all

lemma dr_d_quot: "double_round (689613692941107 / 1724034232352768) = Fin (900719925474099 / 2251799813685248)"
  by (rule double_round_cert [where s = 1020 and m = 7205759403792792]) simp_all

lemma dr_d_dec: "double_round (2 / 5) = Fin (3602879701896397 / 9007199254740992)"
  by (rule double_round_cert [where s = 1020 and m = 7205759403792794]) simp_all

lemma rhe_d: "round_half_even (112589990684262375 / 281474976710656) = 400"
  by (rule round_half_even_unique) simp

lemma dr_c_sub: "double_round (49 / 4) = Fin (49 / 4)"
  by (rule double_round_cert [where s = 1025 and m = 6896136929411072]) simp_all

lemma dr_half: "double_round (1 / 2) = Fin (1 / 2)"
  by (rule double_round_cert [where s = 1021 and m = 4503599627370496]) simp_all

lemma dr_q_sub: "double_round (49 / 8) = Fin (49 / 8)"
  by (rule double_round_cert [where s = 1024 and m = 6896136929411072]) simp_all

lemma dr_quarter: "double_round (1 / 4) = Fin (1 / 4)"
  by (rule double_round_cert [where s = 1020 and m = 4503599627370496]) simp_all

lemma double_round_overflow: "double_round (2 ^ 1024) = PInf"
proof -
  have "round_scaled (2 ^ 1024 * 2 ^ 1074) = of_int (2 ^ 52) * 2 ^ 2046"
    by (rule round_scaled_cert) simp_all
  then have "round_magnitude (2 ^ 1024) = 2 ^ 1024" by (simp add: round_magnitude_def)
  then show ?thesis by (simp add: double_round_def round_to_double_def Let_def)
qed

lemma py_float_big: "py_float E (PInt (2 ^ 1024)) = Inl OverflowError"
proof -
  have "double_round (of_int (2 ^ 1024)) = PInf"
    using double_round_overflow by simp
  then show ?thesis by (simp only: py_float.simps pyfloat.case)
qed

lemma t2p_examples:
  "temperature_to_percentage (Fin 50) = Inr (Fin 1)"
  "temperature_to_percentage (Fin 20) = Inr (Fin 0)"
  "temperature_to_percentage (Fin 25) = Inr (Fin 0)"
  "temperature_to_percentage (Fin (99 / 2)) = Inr (Fin 1)"
  "temperature_to_percentage NaN = Inr NaN"
  "temperature_to_percentage (Fin (149 / 4)) = Inr (Fin (1 / 2))"
  "temperature_to_percentage (Fin (249 / 8)) = Inr (Fin (1 / 4))"
  "temperature_to_percentage (Fin (2448832297382707 / 70368744177664))
     = Inr (Fin (3602879701896397 / 9007199254740992))"
  by (simp_all add: temperature_to_percentage_def min_temp_def max_temp_def fge_def fdiv_def
        dr_d_sub dr_d_quot dr_d_dec rhe_d dr_c_sub dr_half dr_q_sub dr_quarter)

lemma process_point_examples:
  "process_point E rec_a = Inr (Some pt_a)"
  "process_point E rec_b = Inr (Some pt_b)"
  "process_point E rec_c = Inr (Some pt_c)"
  "process_point E rec_d = Inr (Some pt_d)"
  "process_point E rec_lo = Inr (Some pt_lo)"
  "process_point E rec_q = Inr (Some pt_q)"
  "process_point E rec_m = Inr (Some pt_m)"
  "process_point E rec_hi = Inr (Some pt_hi)"
  "process_point E rec_nan = Inr (Some pt_nan)"
  "process_point E (rec_at ts) = Inr (Some (pt_at ts))"
  by (simp_all add: process_point_def extract_temperature_def t2p_examples get_default_def
        rec_a_def rec_b_def rec_c_def rec_d_def rec_lo_def rec_q_def rec_m_def rec_hi_def
        rec_nan_def rec_at_def
        pt_a_def pt_b_def pt_c_def pt_d_def pt_lo_def pt_q_def pt_m_def pt_hi_def pt_nan_def
        pt_at_def)

lemma process_point_text: "process_point E_lin rec_text = Inl ValueError"
  by (simp add: process_point_def extract_temperature_def rec_text_def E_lin_def)

lemma process_point_big: "process_point E rec_big = Inl OverflowError"
  using py_float_big [of E]
  by (simp add: process_point_def extract_temperature_def rec_big_def del: py_float.simps)

lemma process_point_mixed:
  "\<exists>p. process_point E rec_iso = Inr (Some p) \<and> pp_timestamp p = PStr ''2023-12-21T02:30:00Z''"
  "\<exists>p. process_point E rec_plain = Inr (Some p) \<and> pp_timestamp p = PInt 0"
  using temperature_to_percentage_total [of "Fin 30"] temperature_to_percentage_total [of "Fin 31"]
  by (auto simp: process_point_def extract_temperature_def get_default_def rec_iso_def
        rec_plain_def)

lemma process_raw_data_single:
  "process_point E dp = Inr (Some p) \<Longrightarrow> process_raw_data E [dp] = Inr [p]"
  by (simp add: process_raw_data_def py_sort_def unordered_def)

lemma py_lt_int: "py_lt (PInt a) (PInt b) = Inr (a < b)"
  by (simp add: py_lt_def)

lemma py_sort_ints:
  "list_all (\<lambda>x. \<exists>i. k x = PInt i) xs \<Longrightarrow> py_sort E k xs = insertion_sort k xs"
  by (auto simp: py_sort_def unordered_iff list_all_iff)

lemma process_raw_data_abc:
  "process_raw_data E [rec_a, rec_b, rec_c] = Inr [pt_b, pt_a, pt_c]"
  "process_raw_data E [rec_c, rec_a, rec_b] = Inr [pt_b, pt_c, pt_a]"
  by (simp_all add: process_raw_data_def process_point_examples py_sort_ints py_lt_int
        pt_a_def pt_b_def pt_c_def)

lemma process_raw_data_line:
  "process_raw_data E [rec_hi, rec_lo, rec_m, rec_q] = Inr [pt_lo, pt_q, pt_m, pt_hi]"
  by (simp add: process_raw_data_def process_point_examples py_sort_ints py_lt_int
        pt_lo_def pt_q_def pt_m_def pt_hi_def)

lemma process_raw_data_lo_hi:
  "process_raw_data E [rec_lo, rec_hi] = Inr [pt_lo, pt_hi]"
  by (simp add: process_raw_data_def process_point_examples py_sort_ints py_lt_int
        pt_lo_def pt_hi_def)

lemma process_raw_data_mixed: "process_raw_data E [rec_iso, rec_plain] = Inl TypeError"
proof -
  from process_point_mixed [of E] obtain p q where
    "process_point E rec_iso = Inr (Some p)" "pp_timestamp p = PStr ''2023-12-21T02:30:00Z''"
    "process_point E rec_plain = Inr (Some q)" "pp_timestamp q = PInt 0"
    by blast
  then show ?thesis
    by (simp add: process_raw_data_def py_sort_def unordered_def py_lt_def)
qed

lemma process_raw_data_big: "process_raw_data E [rec_big] = Inl OverflowError"
  by (simp add: process_raw_data_def process_point_big caught_def)

lemma process_raw_data_nan_keys:
  "process_raw_data E_lin [rec_at (Fin 2), rec_at NaN, rec_at (Fin 1)]
     = Inr [pt_at (Fin 2), pt_at NaN, pt_at (Fin 1)]"
  by (simp add: process_raw_data_def process_point_examples py_sort_def unordered_def
        permute_def E_lin_def pt_at_def upt_rec)

lemma fit_raises_examples:
  "\<not> fit_raises E [pt]" "fit_raises E [p1, p2]" "\<not> fit_raises E_lin [p1, p2, p3, p4]"
  by (simp_all add: fit_raises_def interp1d_def E_lin_def)

lemma clk0_second: "i < 1000000 \<Longrightarrow> py_int (dt_timestamp (clk0 i)) = 1703125800"
  by (simp add: clk0_def reading_def py_int_def floor_eq_iff)

lemma clk_east_timestamp: "dt_timestamp (clk_east i) = dt_timestamp (clk0 i)"
  by (simp add: clk0_def clk_east_def reading_def)

lemma targets_clk0:
  "fst (generate_target_timestamps clk0 0)
     = [1703124000, 1703131200, 1703138400, 1703145600, 1703152800, 1703160000,
        1703167200, 1703174400, 1703181600, 1703188800, 1703196000]"
  by code_simp

lemma targets_east:
  "fst (generate_target_timestamps clk_east 0)
     = [1703095200, 1703102400, 1703109600, 1703116800, 1703124000, 1703131200,
        1703138400, 1703145600, 1703152800, 1703160000, 1703167200]"
  by code_simp

lemma targets_1970:
  "fst (generate_target_timestamps clk_1970 0)
     = [- 36000, - 28800, - 21600, - 14400, - 7200, 0, 7200, 14400, 21600, 28800, 36000]"
  by code_simp

lemma np_clip_low: "x \<le> 0 \<Longrightarrow> np_clip (double_round x) (Fin 0) (Fin 1) = Fin 0"
  using double_round_mono [of x 0] by (cases "double_round x") (auto simp: np_clip_def)

lemma np_clip_high: "1 \<le> x \<Longrightarrow> np_clip (double_round x) (Fin 0) (Fin 1) = Fin 1"
  using double_round_mono [of 1 x] by (cases "double_round x") (auto simp: np_clip_def)

lemma clip_round_line:
  "t \<le> 0 \<Longrightarrow> py_round (np_clip (double_round (of_int t / 1000)) (Fin 0) (Fin 1)) 3 = Fin 0"
  "1000 \<le> t \<Longrightarrow> py_round (np_clip (double_round (of_int t / 1000)) (Fin 0) (Fin 1)) 3 = Fin 1"
proof -
  show "py_round (np_clip (double_round (of_int t / 1000)) (Fin 0) (Fin 1)) 3 = Fin 0" if "t \<le> 0"
  proof -
    from that have "(of_int t / 1000 :: rat) \<le> 0" by (simp add: divide_le_0_iff)
    then show ?thesis by (simp add: np_clip_low)
  qed
  show "py_round (np_clip (double_round (of_int t / 1000)) (Fin 0) (Fin 1)) 3 = Fin 1" if "1000 \<le> t"
  proof -
    from that have "1 \<le> (of_int t / 1000 :: rat)" by simp
    then show ?thesis by (simp add: np_clip_high)
  qed
qed

section \<open>Properties of the reports\<close>

lemma sanitised_points:
  assumes "process_raw_data E raw = Inr ps" and "p \<in> set ps"
  shows "\<exists>dp\<in>set raw. process_point E dp = Inr (Some p)"
proof -
  from assms(1) obtain pts where loop: "process_loop E raw [] = Inr pts"
    and srt: "py_sort E pp_timestamp pts = Inr ps"
    by (auto simp: process_raw_data_def split: sum.splits)
  from py_sort_mset [OF srt] assms(2) have "p \<in> set pts" by (metis set_mset_mset)
  with loop obtain dp where "dp \<in> set raw" "point_of E dp = Some p"
    by (auto simp: process_loop_Inr_iff List.map_filter_def)
  then show ?thesis by (auto simp: point_of_Some)
qed

lemma sanitised_probability:
  assumes "process_raw_data E raw = Inr ps" and "p \<in> set ps"
  shows "py_round (pp_fault_probability p) 3 = pp_fault_probability p"
    and "pp_fault_probability p = NaN \<longleftrightarrow> pp_temperature p = NaN"
    and "pp_temperature p \<noteq> NaN \<Longrightarrow> in_unit (pp_fault_probability p)"
proof -
  from sanitised_points [OF assms] obtain dp where "process_point E dp = Inr (Some p)" by blast
  from process_point_fields(4) [OF this] temperature_to_percentage_total [of "pp_temperature p"]
  show "py_round (pp_fault_probability p) 3 = pp_fault_probability p"
    and "pp_fault_probability p = NaN \<longleftrightarrow> pp_temperature p = NaN"
    and "pp_temperature p \<noteq> NaN \<Longrightarrow> in_unit (pp_fault_probability p)"
    by (auto simp del: py_round.simps)
qed

lemma clip_round_in_unit:
  "x \<noteq> NaN \<Longrightarrow> in_unit (py_round (np_clip x (Fin 0) (Fin 1)) 3)"
  by (rule py_round_in_unit) (rule np_clip_in_unit)

lemma clip_round_idem:
  "py_round (py_round (np_clip x (Fin 0) (Fin 1)) 3) 3 = py_round (np_clip x (Fin 0) (Fin 1)) 3"
proof (cases "x = NaN")
  case True
  then show ?thesis by (simp add: np_clip_def)
next
  case False
  then show ?thesis by (intro py_round_idem np_clip_in_unit)
qed

lemma clip_round_examples:
  "map (\<lambda>t. py_round (np_clip (double_round (of_int t / 1000)) (Fin 0) (Fin 1)) 3)
       [- 36000, - 28800, - 21600, - 14400, - 7200, 0, 7200, 14400, 21600, 28800, 36000]
   = [Fin 0, Fin 0, Fin 0, Fin 0, Fin 0, Fin 0, Fin 1, Fin 1, Fin 1, Fin 1, Fin 1]"
  using clip_round_line(1) [of "- 36000"] clip_round_line(1) [of "- 28800"]
    clip_round_line(1) [of "- 21600"] clip_round_line(1) [of "- 14400"]
    clip_round_line(1) [of "- 7200"] clip_round_line(1) [of 0]
    clip_round_line(2) [of 7200] clip_round_line(2) [of 14400] clip_round_line(2) [of 21600]
    clip_round_line(2) [of 28800] clip_round_line(2) [of 36000]
  by (simp del: py_round.simps)

lemma all_mapped:
  "map f xs = L \<Longrightarrow> (\<forall>x\<in>set xs. P (f x)) \<longleftrightarrow> (\<forall>p\<in>set L. P p)"
  by auto

lemma process_and_export_json_eq:
  "process_raw_data E raw = Inr ps \<Longrightarrow>
     process_and_export_json E clk n raw = Inr (generate_time_series_data E clk n ps)"
  by (simp add: process_and_export_json_def)

lemma series_probabilities_shape:
  assumes run: "process_raw_data E raw = Inr ps"
  shows "\<exists>L. map sp_probability (timeSeries (fst (generate_time_series_data E clk n ps))) = L
      \<and> length L = 11
      \<and> (\<forall>p\<in>set L. py_round p 3 = p \<and> (p = NaN \<or> in_unit p))
      \<and> ((\<forall>p\<in>set ps. pp_temperature p \<noteq> NaN) \<longrightarrow>
          (\<forall>g. interp1d E (map pp_timestamp ps) (map pp_fault_probability ps) = Inr g \<longrightarrow>
               (\<forall>t\<in>set (fst (generate_target_timestamps clk n)). g t \<noteq> NaN)) \<longrightarrow>
          (\<forall>p\<in>set L. in_unit p))"
proof -
  have zero: "py_round (Fin 0) 3 = Fin 0" "in_unit (Fin 0)"
    by (simp_all add: in_unit_def)
  consider "ps = []" | "fit_raises E ps" | "ps \<noteq> []" "\<not> fit_raises E ps" by blast
  then show ?thesis
  proof cases
    case 1
    then show ?thesis
      by (simp add: generate_empty empty_series_props zero del: py_round.simps)
  next
    case 2
    then show ?thesis
      by (simp add: generate_fallback empty_series_props zero del: py_round.simps)
  next
    case 3
    then show ?thesis
    proof (cases rule: not_fit_raises_cases)
      case 1
      then obtain pt where ps: "ps = [pt]" by (cases ps) auto
      have pt: "py_round (pp_fault_probability pt) 3 = pp_fault_probability pt"
        "pp_fault_probability pt = NaN \<longleftrightarrow> pp_temperature pt = NaN"
        "pp_temperature pt \<noteq> NaN \<Longrightarrow> in_unit (pp_fault_probability pt)"
        using sanitised_probability [OF run, of pt] ps by simp_all
      from generate_single [OF 1, of E clk n]
      have "map sp_probability (timeSeries (fst (generate_time_series_data E clk n ps)))
              = replicate 11 (pp_fault_probability pt)"
        using ps pt(1) by (auto simp del: py_round.simps)
      then show ?thesis using pt ps by (auto simp del: py_round.simps)
    next
      case (2 g)
      let ?c = "\<lambda>t. py_round (np_clip (g t) (Fin 0) (Fin 1)) 3"
      from generate_fit [OF 2, of clk n]
      have eq: "map sp_probability (timeSeries (fst (generate_time_series_data E clk n ps)))
              = map ?c (fst (generate_target_timestamps clk n))"
        by auto
      have a: "py_round (?c t) 3 = ?c t" for t by (rule clip_round_idem)
      have b: "?c t = NaN \<or> in_unit (?c t)" for t
        using clip_round_in_unit [of "g t"] by (cases "g t = NaN") (simp_all add: np_clip_def)
      have c: "g t \<noteq> NaN \<Longrightarrow> in_unit (?c t)" for t by (rule clip_round_in_unit)
      show ?thesis unfolding eq using a b c 2(2)
        by (auto simp: target_timestamps_props(2) simp del: py_round.simps)
    qed
  qed
qed

text \<open>
  C6. When the sanitiser returns exactly one point, with probability \<open>p\<close>, the series of
  the report has 11 entries whose probabilities are all \<open>p\<close>: the rounding to three
  decimals at the output leaves a sanitised probability unchanged.
\<close>

theorem single_point_constant_fill:
  assumes "process_raw_data E raw = Inr [pt]"
  shows "map sp_probability (timeSeries (fst (generate_time_series_data E clk n [pt])))
           = replicate 11 (pp_fault_probability pt)"
proof -
  have "py_round (pp_fault_probability pt) 3 = pp_fault_probability pt"
    using sanitised_probability(1) [OF assms, of pt] by simp
  moreover obtain r where "generate_time_series_data E clk n [pt] = (r, n + 8)"
    "map sp_probability (timeSeries r) = replicate 11 (py_round (pp_fault_probability (hd [pt])) 3)"
    using generate_single [of "[pt]" E clk n] by auto
  ultimately show ?thesis by (simp del: py_round.simps)
qed

text \<open>
  The record with the temperature \<^verbatim>\<open>34.8\<close>: its probability is the double \<^verbatim>\<open>0.4\<close>,
  and so are the 11 values of the series.
\<close>

theorem single_point_constant_fill_witness:
  "process_raw_data E_lin [rec_d] = Inr [pt_d]
   \<and> map sp_probability (timeSeries (fst (generate_time_series_data E_lin clk0 0 [pt_d])))
       = replicate 11 (Fin (3602879701896397 / 9007199254740992))
   \<and> double_round (2 / 5) = Fin (3602879701896397 / 9007199254740992)"
proof -
  have h: "process_raw_data E_lin [rec_d] = Inr [pt_d]"
    by (rule process_raw_data_single) (rule process_point_examples)
  from single_point_constant_fill [OF h, of clk0 0] h dr_d_dec show ?thesis
    by (simp add: pt_d_def)
qed

text \<open>
  C7. On the empty sanitised input all 11 probabilities are \<open>0.0\<close> and the report lists
  the one device \<open>WaterJet_01\<close>; on the normal path of a non-empty input (one point, or
  a fit that does not raise) it lists the three devices. A non-empty input whose fit
  raises takes the fallback, with the one device.
\<close>

theorem device_list_asymmetry:
  "map sp_probability (timeSeries (fst (generate_time_series_data E clk n []))) = replicate 11 (Fin 0)
   \<and> availableWaterJets (fst (generate_time_series_data E clk n [])) = [''WaterJet_01'']
   \<and> (ps \<noteq> [] \<longrightarrow> \<not> fit_raises E ps \<longrightarrow>
        availableWaterJets (fst (generate_time_series_data E clk n ps))
          = [''WaterJet_01'', ''WaterJet_02'', ''WaterJet_03''])
   \<and> (fit_raises E ps \<longrightarrow>
        availableWaterJets (fst (generate_time_series_data E clk n ps)) = [''WaterJet_01''])"
proof -
  have "availableWaterJets (fst (generate_time_series_data E clk n ps))
          = [''WaterJet_01'', ''WaterJet_02'', ''WaterJet_03'']"
    if "ps \<noteq> []" "\<not> fit_raises E ps"
    using that
  proof (cases rule: not_fit_raises_cases)
    case 1
    from generate_single [OF this, of E clk n] show ?thesis by auto
  next
    case (2 g)
    from generate_fit [OF this, of clk n] show ?thesis by auto
  qed
  then show ?thesis
    by (simp add: generate_empty generate_fallback empty_series_props)
qed

text \<open>
  The empty input, one point, the four points on the line, and two points, on which the
  cubic fit raises.
\<close>

theorem device_list_asymmetry_witness:
  "availableWaterJets (fst (generate_time_series_data E_lin clk0 0 [])) = [''WaterJet_01'']
   \<and> availableWaterJets (fst (generate_time_series_data E_lin clk0 0 [pt_d]))
       = [''WaterJet_01'', ''WaterJet_02'', ''WaterJet_03'']
   \<and> availableWaterJets (fst (generate_time_series_data E_lin clk0 0 [pt_lo, pt_q, pt_m, pt_hi]))
       = [''WaterJet_01'', ''WaterJet_02'', ''WaterJet_03'']
   \<and> availableWaterJets (fst (generate_time_series_data E_lin clk0 0 [pt_lo, pt_hi])) = [''WaterJet_01'']"
  using device_list_asymmetry [of E_lin clk0 0 "[pt_d]"]
    device_list_asymmetry [of E_lin clk0 0 "[pt_lo, pt_q, pt_m, pt_hi]"]
    device_list_asymmetry [of E_lin clk0 0 "[pt_lo, pt_hi]"]
  by (simp add: fit_raises_examples)

text \<open>
  C10. On the normal path of a non-empty sanitised input, \<open>latestData.timestamp\<close> is the
  \<open>time\<close> field of the last sanitised point, which is the \<open>time\<close> entry of its raw
  record, or the empty string when the record has none; the \<open>timestamp\<close> field of the
  point is not used.
\<close>

theorem latest_timestamp_is_time_field:
  assumes "process_raw_data E raw = Inr ps" and "ps \<noteq> []" and "\<not> fit_raises E ps"
  shows "ld_timestamp (latestData (fst (generate_time_series_data E clk n ps))) = pp_time (last ps)
     \<and> pp_original_data (last ps) \<in> set raw
     \<and> pp_time (last ps) = (case pp_original_data (last ps) ''time'' of None \<Rightarrow> PStr [] | Some v \<Rightarrow> v)"
proof -
  have "latestData (fst (generate_time_series_data E clk n ps)) = normal_latest ps"
    using assms(2,3)
  proof (cases rule: not_fit_raises_cases)
    case 1
    from generate_single [OF this, of E clk n] show ?thesis by auto
  next
    case (2 g)
    from generate_fit [OF this, of clk n] show ?thesis by auto
  qed
  then have a: "ld_timestamp (latestData (fst (generate_time_series_data E clk n ps))) = pp_time (last ps)"
    by (simp add: normal_latest_def)
  from assms(2) have "last ps \<in> set ps" by simp
  from sanitised_points [OF assms(1) this] obtain dp
    where dp: "dp \<in> set raw" "process_point E dp = Inr (Some (last ps))" by blast
  from process_point_fields(1,3) [OF dp(2)] dp(1) a show ?thesis
    by (simp add: get_default_def)
qed

text \<open>
  Four records with distinct timestamps; the last sanitised point is the one with the
  timestamp 1000, whose record has a \<open>time\<close> entry.
\<close>

theorem latest_timestamp_is_time_field_witness:
  "process_raw_data E_lin [rec_hi, rec_lo, rec_m, rec_q] = Inr [pt_lo, pt_q, pt_m, pt_hi]
   \<and> pp_timestamp pt_hi = PInt 1000
   \<and> ld_timestamp (latestData (fst (generate_time_series_data E_lin clk_1970 0 [pt_lo, pt_q, pt_m, pt_hi])))
       = PStr ''1970-01-01T00:16:40Z''"
proof -
  have h: "process_raw_data E_lin [rec_hi, rec_lo, rec_m, rec_q] = Inr [pt_lo, pt_q, pt_m, pt_hi]"
    by (rule process_raw_data_line)
  have ne: "[pt_lo, pt_q, pt_m, pt_hi] \<noteq> []" by simp
  from latest_timestamp_is_time_field [OF h ne fit_raises_examples(3), of clk_1970 0]
  have "ld_timestamp (latestData (fst (generate_time_series_data E_lin clk_1970 0 [pt_lo, pt_q, pt_m, pt_hi])))
          = pp_time (last [pt_lo, pt_q, pt_m, pt_hi])" by blast
  moreover have "pp_time pt_hi = PStr ''1970-01-01T00:16:40Z''" "pp_timestamp pt_hi = PInt 1000"
    by (simp_all add: pt_hi_def)
  ultimately show ?thesis using h by simp
qed

text \<open>
  C9 (as amended). In the fallback report each of the 11 entries carries the integer part
  of the clock reading taken when that entry is built, in the order of the 11 labels. The
  11 timestamps are equal whenever those readings fall into the same second. They are
  determined by the instants of the readings alone: two clocks that read the same
  instants give the same timestamps, whatever their target slots are. The empty input and
  a raising fit both return this report.
\<close>

theorem fallback_timestamps_are_clock_readings:
  "map sp_timestamp (timeSeries (fst (get_empty_time_series clk n)))
     = map (\<lambda>i. py_int (dt_timestamp (clk (n + i)))) [0..<11]
   \<and> map sp_time (timeSeries (fst (get_empty_time_series clk n))) = time_labels
   \<and> ((\<forall>i<11. py_int (dt_timestamp (clk (n + i))) = s) \<longrightarrow>
        map sp_timestamp (timeSeries (fst (get_empty_time_series clk n))) = replicate 11 s)
   \<and> ((\<forall>i<11. dt_timestamp (clk' (n + i)) = dt_timestamp (clk (n + i))) \<longrightarrow>
        map sp_timestamp (timeSeries (fst (get_empty_time_series clk' n)))
          = map sp_timestamp (timeSeries (fst (get_empty_time_series clk n))))
   \<and> generate_time_series_data E clk n [] = get_empty_time_series clk n
   \<and> (fit_raises E ps \<longrightarrow>
        generate_time_series_data E clk n ps = get_empty_time_series clk (n + 1))"
proof -
  have "map (\<lambda>i. py_int (dt_timestamp (clk (n + i)))) [0..<11] = replicate 11 s"
    if "\<forall>i<11. py_int (dt_timestamp (clk (n + i))) = s"
    using that by (intro nth_equalityI) simp_all
  moreover have "map (\<lambda>i. py_int (dt_timestamp (clk' (n + i)))) [0..<11]
      = map (\<lambda>i. py_int (dt_timestamp (clk (n + i)))) [0..<11]"
    if "\<forall>i<11. dt_timestamp (clk' (n + i)) = dt_timestamp (clk (n + i))"
    using that by (intro nth_equalityI) simp_all
  ultimately show ?thesis
    by (simp add: empty_series_props generate_empty generate_fallback)
qed

text \<open>
  A clock whose 11 readings fall into the second 1703125800, in UTC and in a zone eight
  hours ahead: the fallback timestamps are the same, the target slots are not.
\<close>

theorem fallback_timestamps_are_clock_readings_witness:
  "map sp_timestamp (timeSeries (fst (get_empty_time_series clk0 0))) = replicate 11 1703125800
   \<and> map sp_timestamp (timeSeries (fst (get_empty_time_series clk_east 0))) = replicate 11 1703125800
   \<and> fst (generate_target_timestamps clk0 0)
       = [1703124000, 1703131200, 1703138400, 1703145600, 1703152800, 1703160000,
          1703167200, 1703174400, 1703181600, 1703188800, 1703196000]
   \<and> fst (generate_target_timestamps clk_east 0)
       = [1703095200, 1703102400, 1703109600, 1703116800, 1703124000, 1703131200,
          1703138400, 1703145600, 1703152800, 1703160000, 1703167200]
   \<and> map sp_time (timeSeries (fst (get_empty_time_series clk0 0))) = time_labels
   \<and> generate_time_series_data E_lin clk0 0 [] = get_empty_time_series clk0 0
   \<and> generate_time_series_data E_lin clk0 0 [pt_lo, pt_hi] = get_empty_time_series clk0 1"
proof -
  have h: "\<forall>i<11. py_int (dt_timestamp (clk0 (0 + i))) = 1703125800"
    by (simp add: clk0_second)
  have e: "\<forall>i<11. dt_timestamp (clk_east (0 + i)) = dt_timestamp (clk0 (0 + i))"
    by (simp add: clk_east_timestamp)
  have f: "fit_raises E_lin [pt_lo, pt_hi]" by (rule fit_raises_examples)
  note t = fallback_timestamps_are_clock_readings
             [of clk0 0 1703125800 clk_east E_lin "[pt_lo, pt_hi]"]
  from t h have a: "map sp_timestamp (timeSeries (fst (get_empty_time_series clk0 0)))
      = replicate 11 1703125800" by blast
  from t e have a': "map sp_timestamp (timeSeries (fst (get_empty_time_series clk_east 0)))
      = map sp_timestamp (timeSeries (fst (get_empty_time_series clk0 0)))" by blast
  from t have b: "map sp_time (timeSeries (fst (get_empty_time_series clk0 0))) = time_labels"
    and c: "generate_time_series_data E_lin clk0 0 [] = get_empty_time_series clk0 0"
    by blast+
  from t f have d: "generate_time_series_data E_lin clk0 0 [pt_lo, pt_hi]
      = get_empty_time_series clk0 (0 + 1)" by blast
  from a a' b c d targets_clk0 targets_east show ?thesis by simp
qed

text \<open>
  A clock that passes a full second during the 11 readings: the entries carry two
  different timestamps.
\<close>

theorem fallback_timestamps_counterexample:
  "map sp_timestamp (timeSeries (fst (get_empty_time_series clk_tick 0)))
     = [1703125800, 1703125800, 1703125800, 1703125800, 1703125800,
        1703125801, 1703125801, 1703125801, 1703125801, 1703125801, 1703125801]"
  by code_simp

text \<open>
  C1. The resampler is claimed to fit a cubic through two or more points and to evaluate
  it at the 11 targets. Its guard is \<^verbatim>\<open>len(timestamps) >= 2\<close>, and the cubic
  \<^verbatim>\<open>interp1d\<close> needs four entries: on the two points \<open>(0, 0.0)\<close> and \<open>(1000, 1.0)\<close> of
  the claim the call raises \<^verbatim>\<open>ValueError\<close>, nothing is evaluated or clamped, and the
  \<^verbatim>\<open>except\<close> clause returns the fallback report: 11 zeros, the clock readings for
  timestamps, one device.
\<close>

theorem two_point_fit_raises:
  "process_raw_data E [rec_lo, rec_hi] = Inr [pt_lo, pt_hi]
   \<and> map pp_timestamp [pt_lo, pt_hi] = [PInt 0, PInt 1000]
   \<and> map pp_fault_probability [pt_lo, pt_hi] = [Fin 0, Fin 1]
   \<and> interp1d E (map pp_timestamp [pt_lo, pt_hi]) (map pp_fault_probability [pt_lo, pt_hi])
       = Inl ValueError
   \<and> generate_time_series_data E clk n [pt_lo, pt_hi] = get_empty_time_series clk (n + 1)
   \<and> map sp_probability (timeSeries (fst (generate_time_series_data E clk n [pt_lo, pt_hi])))
       = replicate 11 (Fin 0)
   \<and> map sp_timestamp (timeSeries (fst (generate_time_series_data E clk n [pt_lo, pt_hi])))
       = map (\<lambda>i. py_int (dt_timestamp (clk (n + 1 + i)))) [0..<11]
   \<and> availableWaterJets (fst (generate_time_series_data E clk n [pt_lo, pt_hi])) = [''WaterJet_01'']"
proof -
  have g: "generate_time_series_data E clk n [pt_lo, pt_hi] = get_empty_time_series clk (n + 1)"
    by (rule generate_fallback) (rule fit_raises_examples)
  show ?thesis
    unfolding g
    by (simp add: process_raw_data_lo_hi empty_series_props interp1d_def pt_lo_def pt_hi_def)
qed

text \<open>
  C4 (as amended). Whenever the sanitiser returns, the pipeline returns the report of
  \<open>generate_time_series_data\<close>, on the normal and on the fallback path alike: its series
  has exactly 11 entries, every probability is unchanged by rounding to three decimals,
  and every probability is NaN or lies in \<open>[0, 1]\<close>. All lie in \<open>[0, 1]\<close> when no
  sanitised temperature is NaN and the interpolant returns no NaN at a target.
\<close>

theorem report_series_shape:
  assumes "process_raw_data E raw = Inr ps"
  shows "let r = fst (generate_time_series_data E clk n ps)
         in process_and_export_json E clk n raw = Inr (generate_time_series_data E clk n ps)
            \<and> length (timeSeries r) = 11
            \<and> (\<forall>sp\<in>set (timeSeries r).
                  py_round (sp_probability sp) 3 = sp_probability sp
                  \<and> (sp_probability sp = NaN \<or> in_unit (sp_probability sp)))
            \<and> ((\<forall>p\<in>set ps. pp_temperature p \<noteq> NaN) \<longrightarrow>
                (\<forall>g. interp1d E (map pp_timestamp ps) (map pp_fault_probability ps) = Inr g \<longrightarrow>
                     (\<forall>t\<in>set (fst (generate_target_timestamps clk n)). g t \<noteq> NaN)) \<longrightarrow>
                (\<forall>sp\<in>set (timeSeries r). in_unit (sp_probability sp)))"
proof -
  let ?ts = "timeSeries (fst (generate_time_series_data E clk n ps))"
  from series_probabilities_shape [OF assms, of clk n] obtain L
    where L: "map sp_probability ?ts = L" "length L = 11"
      "\<forall>p\<in>set L. py_round p 3 = p \<and> (p = NaN \<or> in_unit p)"
      "(\<forall>p\<in>set ps. pp_temperature p \<noteq> NaN) \<longrightarrow>
          (\<forall>g. interp1d E (map pp_timestamp ps) (map pp_fault_probability ps) = Inr g \<longrightarrow>
               (\<forall>t\<in>set (fst (generate_target_timestamps clk n)). g t \<noteq> NaN)) \<longrightarrow>
          (\<forall>p\<in>set L. in_unit p)"
    by blast
  from L(1,2) have len: "length ?ts = 11" by (metis length_map)
  have r3: "\<forall>sp\<in>set ?ts. py_round (sp_probability sp) 3 = sp_probability sp
               \<and> (sp_probability sp = NaN \<or> in_unit (sp_probability sp))"
    using L(3) all_mapped [OF L(1), of "\<lambda>p. py_round p 3 = p \<and> (p = NaN \<or> in_unit p)"]
    by blast
  have u: "(\<forall>sp\<in>set ?ts. in_unit (sp_probability sp)) \<longleftrightarrow> (\<forall>p\<in>set L. in_unit p)"
    by (rule all_mapped [OF L(1)])
  from process_and_export_json_eq [OF assms, of clk n] len r3 L(4) u show ?thesis
    unfolding Let_def by blast
qed

text \<open>
  Four records on the line \<open>p = t / 1000\<close>, read at the epoch: the targets lie at
  \<open>-36000, ..., 36000\<close> and the series holds the clamped values of the line.
\<close>

theorem report_series_shape_witness:
  "process_raw_data E_lin [rec_hi, rec_lo, rec_m, rec_q] = Inr [pt_lo, pt_q, pt_m, pt_hi]
   \<and> process_and_export_json E_lin clk_1970 0 [rec_hi, rec_lo, rec_m, rec_q]
       = Inr (generate_time_series_data E_lin clk_1970 0 [pt_lo, pt_q, pt_m, pt_hi])
   \<and> length (timeSeries (fst (generate_time_series_data E_lin clk_1970 0 [pt_lo, pt_q, pt_m, pt_hi]))) = 11
   \<and> list_all (\<lambda>sp. py_round (sp_probability sp) 3 = sp_probability sp
                    \<and> in_unit (sp_probability sp))
        (timeSeries (fst (generate_time_series_data E_lin clk_1970 0 [pt_lo, pt_q, pt_m, pt_hi])))
   \<and> map sp_probability
        (timeSeries (fst (generate_time_series_data E_lin clk_1970 0 [pt_lo, pt_q, pt_m, pt_hi])))
       = [Fin 0, Fin 0, Fin 0, Fin 0, Fin 0, Fin 0, Fin 1, Fin 1, Fin 1, Fin 1, Fin 1]"
proof -
  let ?ps = "[pt_lo, pt_q, pt_m, pt_hi]"
  have h: "process_raw_data E_lin [rec_hi, rec_lo, rec_m, rec_q] = Inr ?ps"
    by (rule process_raw_data_line)
  have t: "\<forall>p\<in>set ?ps. pp_temperature p \<noteq> NaN"
    by (simp add: pt_lo_def pt_q_def pt_m_def pt_hi_def)
  have fit: "interp1d E_lin (map pp_timestamp ?ps) (map pp_fault_probability ?ps)
      = Inr (\<lambda>t. double_round (of_int t / 1000))"
    by (simp add: interp1d_def E_lin_def)
  have g: "\<forall>g. interp1d E_lin (map pp_timestamp ?ps) (map pp_fault_probability ?ps) = Inr g \<longrightarrow>
             (\<forall>t\<in>set (fst (generate_target_timestamps clk_1970 0)). g t \<noteq> NaN)"
    unfolding fit by auto
  have len: "2 \<le> length ?ps" by simp
  from generate_fit [OF len fit, of clk_1970 0]
  have v: "map sp_probability (timeSeries (fst (generate_time_series_data E_lin clk_1970 0 ?ps)))
      = [Fin 0, Fin 0, Fin 0, Fin 0, Fin 0, Fin 0, Fin 1, Fin 1, Fin 1, Fin 1, Fin 1]"
    unfolding targets_1970 clip_round_examples by auto
  from report_series_shape [OF h, of clk_1970 0] t g h v show ?thesis
    unfolding Let_def list_all_iff by blast
qed

text \<open>
  A record whose temperature is NaN passes both comparisons of the normaliser, and the
  series holds 11 NaN.
\<close>

theorem nan_probability_counterexample:
  "process_and_export_json E_lin clk0 0 [rec_nan] = Inr (generate_time_series_data E_lin clk0 0 [pt_nan])
   \<and> map sp_probability (timeSeries (fst (generate_time_series_data E_lin clk0 0 [pt_nan])))
       = replicate 11 NaN
   \<and> \<not> in_unit NaN"
proof -
  have h: "process_raw_data E_lin [rec_nan] = Inr [pt_nan]"
    by (rule process_raw_data_single) (rule process_point_examples)
  have "length [pt_nan] = 1" by simp
  from generate_single [OF this, of E_lin clk0 0]
  have "map sp_probability (timeSeries (fst (generate_time_series_data E_lin clk0 0 [pt_nan])))
      = replicate 11 NaN"
    by (auto simp: pt_nan_def)
  with process_and_export_json_eq [OF h, of clk0 0] show ?thesis
    by (simp add: in_unit_def)
qed

text \<open>
  The sanitiser on a permutation of three records, two of them with the timestamp 5 and
  one without a timestamp.
\<close>

theorem process_raw_data_sorted_stable_witness:
  "process_raw_data E_lin [rec_a, rec_b, rec_c] = Inr [pt_b, pt_a, pt_c]
   \<and> list_all (\<lambda>p. pp_timestamp p \<noteq> PFloat NaN) [pt_b, pt_a, pt_c]
   \<and> mset [rec_c, rec_a, rec_b] = mset [rec_a, rec_b, rec_c]
   \<and> (\<exists>pts' ps'. process_loop E_lin [rec_c, rec_a, rec_b] [] = Inr pts'
        \<and> process_raw_data E_lin [rec_c, rec_a, rec_b] = Inr ps'
        \<and> mset ps' = mset [pt_b, pt_a, pt_c]
        \<and> map pp_original_data pts' = filter (\<lambda>dp. point_of E_lin dp \<noteq> None) [rec_c, rec_a, rec_b]
        \<and> sorted_wrt (\<lambda>p q. py_lt (pp_timestamp q) (pp_timestamp p) = Inr False) ps'
        \<and> (\<forall>p0\<in>set ps'. filter (\<lambda>p. same_key (pp_timestamp p) (pp_timestamp p0)) ps'
                           = filter (\<lambda>p. same_key (pp_timestamp p) (pp_timestamp p0)) pts')
        \<and> (\<forall>p\<in>set ps'. pp_timestamp p = get_default (pp_original_data p) ''timestamp'' (PInt 0)))
   \<and> process_raw_data E_lin [rec_c, rec_a, rec_b] = Inr [pt_b, pt_c, pt_a]"
proof -
  have run: "process_raw_data E_lin [rec_a, rec_b, rec_c] = Inr [pt_b, pt_a, pt_c]"
    by (rule process_raw_data_abc)
  have nan: "\<forall>p\<in>set [pt_b, pt_a, pt_c]. pp_timestamp p \<noteq> PFloat NaN"
    by (simp add: pt_a_def pt_b_def pt_c_def)
  have perm: "mset [rec_c, rec_a, rec_b] = mset [rec_a, rec_b, rec_c]"
    by (simp add: add_mset_commute)
  from process_raw_data_sorted_stable [OF run nan perm] run nan perm
    process_raw_data_abc(2) [of E_lin]
  show ?thesis unfolding list_all_iff by blast
qed

text \<open>
  Two records of which one has an ISO string for its timestamp and the other none: the
  sort raises. Three records with the timestamps \<^verbatim>\<open>2.0\<close>, NaN and \<^verbatim>\<open>1.0\<close>: the sort
  returns them as they are, the \<^verbatim>\<open>2.0\<close> before the \<^verbatim>\<open>1.0\<close>.
\<close>

theorem process_raw_data_unsorted_counterexample:
  "process_raw_data E_lin [rec_iso, rec_plain] = Inl TypeError
   \<and> process_raw_data E_lin [rec_at (Fin 2), rec_at NaN, rec_at (Fin 1)]
       = Inr [pt_at (Fin 2), pt_at NaN, pt_at (Fin 1)]
   \<and> py_lt (pp_timestamp (pt_at (Fin 1))) (pp_timestamp (pt_at (Fin 2))) = Inr True"
  by (simp add: process_raw_data_mixed process_raw_data_nan_keys pt_at_def py_lt_def)

text \<open>
  C2. The pipeline is claimed to return a report on every list of raw records. It does not:
  \<open>process_raw_data\<close> sorts outside its \<^verbatim>\<open>try\<close>, so timestamps that \<^verbatim>\<open><\<close> cannot
  compare raise \<^verbatim>\<open>TypeError\<close>, and its \<^verbatim>\<open>except\<close> clause does not list the
  \<^verbatim>\<open>OverflowError\<close> that \<^verbatim>\<open>float()\<close> raises on a huge integer; both leave
  \<open>process_and_export_json\<close>.
\<close>

theorem pipeline_raises:
  "process_and_export_json E clk n [rec_iso, rec_plain] = Inl TypeError
   \<and> process_and_export_json E clk n [rec_big] = Inl OverflowError"
  by (simp add: process_and_export_json_def process_raw_data_mixed process_raw_data_big)

end
